theory Spec2Isabelle
  imports Complex_Main "HOL-Library.AList"
begin

section \<open>CategoricalColumn: the categorical column profile\<close>

text \<open>
  A shallow embedding of \<^verbatim>\<open>dataprofiler/profilers/categorical_column_profile.py\<close>.

  Numbers. Python integers are \<open>int\<close>. Python floats are doubles, and every double
  is a rational number, so a float is a value of type \<open>rat\<close>; \<^verbatim>\<open>np.inf\<close> is a value
  of its own. The Gini impurity is a sum of products that the code accumulates in
  doubles: there every division, subtraction, product and addition is rounded to the
  nearest double (\<open>round_double\<close>). In the other functions a true division
  (\<^verbatim>\<open>/\<close>) is the exact quotient, the float literal \<^verbatim>\<open>0.2\<close> is \<open>1/5\<close> and
  \<^verbatim>\<open>1.0\<close> is \<open>1\<close>; the statements about them are about the exact values.

  Errors. A Python exception is a value \<open>Inl e\<close> of a sum type; a division is written
  with \<open>truediv\<close>, which returns \<open>Inl ZeroDivisionError\<close> on a zero divisor.

  Dictionaries. A \<^verbatim>\<open>dict\<close> is an association list in insertion order whose keys are
  distinct (\<open>is_dict\<close>); Python's equality of two dicts is equality of the maps
  \<open>map_of\<close> of the two lists.
\<close>

subsection \<open>Values, errors, dictionaries\<close>

datatype error = ZeroDivisionError | TypeError string | IndexError | KeyError | AttributeError

datatype warning = RuntimeWarning string

datatype pynum = Finite rat | Infinity

type_synonym 'k dict = "('k \<times> int) list"

definition is_dict :: "'k dict \<Rightarrow> bool" where
  "is_dict d = distinct (map fst d)"

definition keys :: "'k dict \<Rightarrow> 'k list" where
  "keys d = map fst d"

definition contains :: "'k dict \<Rightarrow> 'k \<Rightarrow> bool" where
  "contains d k = (k \<in> set (keys d))"

text \<open>The invariant of the data model: every count is a non-negative integer.\<close>

definition counts_nonneg :: "'k dict \<Rightarrow> bool" where
  "counts_nonneg d = (\<forall>kv \<in> set d. 0 \<le> snd kv)"

definition truediv :: "rat \<Rightarrow> rat \<Rightarrow> error + rat" where
  "truediv a b = (if b = 0 then Inl ZeroDivisionError else Inr (a / b))"

subsection \<open>Double-precision arithmetic\<close>

text \<open>
  \<open>round_double x\<close> is the binary64 number nearest to \<open>x\<close>, ties to the even
  significand: 53 significant bits, and the fixed spacing \<^verbatim>\<open>2**-1074\<close> of the
  subnormal numbers below \<^verbatim>\<open>2**-1022\<close>. \<open>floor_log2 x\<close> is the exponent of a
  positive \<open>x\<close>, found by halving or doubling. Overflow to infinity, beyond
  \<^verbatim>\<open>2**1024\<close>, is not modelled: in the functions below it takes a count of more
  than 150 decimal digits. The two zeros of binary64 are one value.
\<close>

definition round_to_even :: "rat \<Rightarrow> int" where
  "round_to_even y =
     (let f = \<lfloor>y\<rfloor>; d = y - of_int f
      in if d < 1 / 2 then f
         else if 1 / 2 < d then f + 1
         else if even f then f else f + 1)"

function log2_ge1 :: "rat \<Rightarrow> nat" where
  "log2_ge1 x = (if x < 2 then 0 else Suc (log2_ge1 (x / 2)))"
  by pat_completeness auto
termination
proof (relation "measure (\<lambda>x. nat \<lfloor>x\<rfloor>)")
  show "wf (measure (\<lambda>x :: rat. nat \<lfloor>x\<rfloor>))" by simp
next
  fix x :: rat
  assume "\<not> x < 2"
  then have x: "2 \<le> x" by simp
  have "of_int \<lfloor>x / 2\<rfloor> \<le> x / 2" by (rule of_int_floor_le)
  moreover have "x < of_int \<lfloor>x\<rfloor> + 1" by linarith
  ultimately have "(of_int \<lfloor>x / 2\<rfloor> :: rat) < of_int \<lfloor>x\<rfloor>" using x by linarith
  then have "\<lfloor>x / 2\<rfloor> < \<lfloor>x\<rfloor>" by (simp only: of_int_less_iff)
  moreover have "0 < \<lfloor>x\<rfloor>" using x by linarith
  ultimately show "(x / 2, x) \<in> measure (\<lambda>x. nat \<lfloor>x\<rfloor>)" by simp
qed

function log2_lt1 :: "rat \<Rightarrow> nat" where
  "log2_lt1 x = (if x \<le> 0 \<or> 1 \<le> x then 0 else Suc (log2_lt1 (2 * x)))"
  by pat_completeness auto
termination
proof (relation "measure (\<lambda>x. nat \<lfloor>1 / x\<rfloor>)")
  show "wf (measure (\<lambda>x :: rat. nat \<lfloor>1 / x\<rfloor>))" by simp
next
  fix x :: rat
  assume "\<not> (x \<le> 0 \<or> 1 \<le> x)"
  then have x: "0 < x" "x < 1" by simp_all
  define y where "y = 1 / x"
  have y: "1 < y" using x by (simp add: y_def)
  have half: "1 / (2 * x) = y / 2" by (simp add: y_def)
  have "of_int \<lfloor>y / 2\<rfloor> \<le> y / 2" by (rule of_int_floor_le)
  moreover have "y < of_int \<lfloor>y\<rfloor> + 1" by linarith
  moreover have "1 \<le> \<lfloor>y\<rfloor>" using y by linarith
  then have "(1 :: rat) \<le> of_int \<lfloor>y\<rfloor>" by (simp only: of_int_1_le_iff)
  ultimately have "(of_int \<lfloor>y / 2\<rfloor> :: rat) < of_int \<lfloor>y\<rfloor>" by linarith
  then have "\<lfloor>y / 2\<rfloor> < \<lfloor>y\<rfloor>" by (simp only: of_int_less_iff)
  then have a: "\<lfloor>1 / (2 * x)\<rfloor> < \<lfloor>1 / x\<rfloor>" unfolding half y_def [symmetric] .
  have "0 < \<lfloor>y\<rfloor>" using y by linarith
  then have b: "0 < \<lfloor>1 / x\<rfloor>" unfolding y_def .
  from a b have "nat \<lfloor>1 / (2 * x)\<rfloor> < nat \<lfloor>1 / x\<rfloor>" by linarith
  then show "(2 * x, x) \<in> measure (\<lambda>x. nat \<lfloor>1 / x\<rfloor>)"
    by (simp only: in_measure)
qed

definition floor_log2 :: "rat \<Rightarrow> int" where
  "floor_log2 x = (if 1 \<le> x then int (log2_ge1 x) else - int (log2_lt1 x))"

definition round_double :: "rat \<Rightarrow> rat" where
  "round_double x =
     (if x = 0 then 0
      else (let e = max (floor_log2 \<bar>x\<bar> - 52) (- 1074)
            in of_int (round_to_even (x / 2 powi e)) * 2 powi e))"

text \<open>
  \<^verbatim>\<open>a / b\<close> on two Python integers is the double nearest to the exact quotient;
  \<^verbatim>\<open>+\<close>, \<^verbatim>\<open>-\<close> and \<^verbatim>\<open>*\<close> on doubles round the exact result.
\<close>

definition int_truediv :: "int \<Rightarrow> int \<Rightarrow> error + rat" where
  "int_truediv a b =
     (if b = 0 then Inl ZeroDivisionError else Inr (round_double (of_int a / of_int b)))"

definition float_add :: "rat \<Rightarrow> rat \<Rightarrow> rat" where
  "float_add a b = round_double (a + b)"

definition float_sub :: "rat \<Rightarrow> rat \<Rightarrow> rat" where
  "float_sub a b = round_double (a - b)"

definition float_mul :: "rat \<Rightarrow> rat \<Rightarrow> rat" where
  "float_mul a b = round_double (a * b)"

subsection \<open>The profile\<close>

text \<open>
  The fields of a \<^verbatim>\<open>CategoricalColumn\<close> that the code below reads:
  \<^verbatim>\<open>_categories\<close> (here \<open>priv_categories\<close>), \<^verbatim>\<open>_top_k_categories\<close>, and
  \<^verbatim>\<open>sample_size\<close>, which the base profiler owns. \<^verbatim>\<open>__calculations\<close> is the empty
  dict throughout and is left out.
\<close>

record 'k CategoricalColumn =
  priv_categories :: "'k dict"
  sample_size :: int
  top_k_categories :: "nat option"

definition MAXIMUM_UNIQUE_VALUES_TO_CLASSIFY_AS_CATEGORICAL :: nat where
  "MAXIMUM_UNIQUE_VALUES_TO_CLASSIFY_AS_CATEGORICAL = 10"

definition CATEGORICAL_THRESHOLD_DEFAULT :: rat where
  "CATEGORICAL_THRESHOLD_DEFAULT = 1 / 5"

definition categories :: "'k CategoricalColumn \<Rightarrow> 'k list" where
  "categories self = keys (priv_categories self)"

definition unique_ratio :: "'k CategoricalColumn \<Rightarrow> error + rat" where
  "unique_ratio self =
     (if sample_size self \<noteq> 0
      then truediv (of_nat (length (categories self))) (of_int (sample_size self))
      else Inr 1)"

definition is_match :: "'k CategoricalColumn \<Rightarrow> error + bool" where
  "is_match self =
     (let unique = length (priv_categories self) in
      if unique \<le> MAXIMUM_UNIQUE_VALUES_TO_CLASSIFY_AS_CATEGORICAL then Inr True
      else if sample_size self \<noteq> 0
      then (case unique_ratio self of
              Inl e \<Rightarrow> Inl e
            | Inr r \<Rightarrow> Inr (r \<le> CATEGORICAL_THRESHOLD_DEFAULT))
      else Inr False)"

subsection \<open>Gini impurity and unalikeability\<close>

text \<open>
  The loops run over the dict in insertion order; \<^verbatim>\<open>self._categories[i]\<close> for a key
  \<open>i\<close> that the iteration has just produced is the count stored with it.
  \<^verbatim>\<open>gini_sum\<close> starts as the integer 0 and becomes a double with the first addition.
\<close>

fun gini_loop :: "'k dict \<Rightarrow> int \<Rightarrow> rat \<Rightarrow> error + rat" where
  "gini_loop [] n gini_sum = Inr gini_sum"
| "gini_loop ((i, c) # rest) n gini_sum =
     (case int_truediv c n of
        Inl e \<Rightarrow> Inl e
      | Inr p \<Rightarrow> gini_loop rest n (float_add gini_sum (float_mul p (float_sub 1 p))))"

definition gini_impurity :: "'k CategoricalColumn \<Rightarrow> error + rat option" where
  "gini_impurity self =
     (if sample_size self = 0 then Inr None
      else (case gini_loop (priv_categories self) (sample_size self) 0 of
              Inl e \<Rightarrow> Inl e
            | Inr gini_sum \<Rightarrow> Inr (Some gini_sum)))"

fun unalike_loop :: "'k dict \<Rightarrow> int \<Rightarrow> int \<Rightarrow> int" where
  "unalike_loop [] n unalike_sum = unalike_sum"
| "unalike_loop ((category, c) # rest) n unalike_sum =
     unalike_loop rest n (unalike_sum + (n - c) * c)"

definition unalikeability :: "'k CategoricalColumn \<Rightarrow> error + rat option" where
  "unalikeability self =
     (if sample_size self = 0 then Inr None
      else if sample_size self = 1 then Inr (Some 0)
      else (case truediv (of_int (unalike_loop (priv_categories self) (sample_size self) 0))
                  (of_int ((sample_size self)\<^sup>2 - sample_size self)) of
              Inl e \<Rightarrow> Inl e
            | Inr unalike \<Rightarrow> Inr (Some unalike)))"

text \<open>One summand of the Gini impurity, as the specification writes it.\<close>

definition gini_term :: "int \<Rightarrow> int \<Rightarrow> rat" where
  "gini_term n c = (of_int c / of_int n) * (1 - of_int c / of_int n)"

text \<open>The same summand as the code computes it, in doubles.\<close>

definition double_gini_term :: "int \<Rightarrow> int \<Rightarrow> rat" where
  "double_gini_term n c =
     float_mul (round_double (of_int c / of_int n))
       (float_sub 1 (round_double (of_int c / of_int n)))"

text \<open>Every count of the dict, divided by \<open>n\<close>, lies between 0 and 1.\<close>

definition unit_fractions :: "'k dict \<Rightarrow> int \<Rightarrow> bool" where
  "unit_fractions d n =
     (\<forall>kv \<in> set d. (0 :: rat) \<le> of_int (snd kv) / of_int n \<and> of_int (snd kv) / of_int n \<le> (1 :: rat))"

subsection \<open>The chi-squared test for homogeneity\<close>

text \<open>
  The two arguments of \<^verbatim>\<open>_perform_chi_squared_test\<close> are references to dict objects:
  \<open>diff\<close> passes \<^verbatim>\<open>self._categories\<close> and \<^verbatim>\<open>other_profile._categories\<close>
  themselves, which are \<^verbatim>\<open>defaultdict(int)\<close> objects, and both may be the same
  object. The dicts therefore live in a store \<open>s\<close>, indexed by reference, which the
  function takes and returns. Reading \<^verbatim>\<open>d[k]\<close> from a \<^verbatim>\<open>defaultdict(int)\<close>
  (\<open>getitem\<close>) stores \<open>0\<close> under a key that is missing.
\<close>

text \<open>The count of a key in a dict, 0 for a key that is absent.\<close>

definition get_or_zero :: "'k dict \<Rightarrow> 'k \<Rightarrow> int" where
  "get_or_zero d k = (case map_of d k of Some v \<Rightarrow> v | None \<Rightarrow> 0)"

type_synonym ('r, 'k) dicts = "'r \<Rightarrow> 'k dict"

definition getitem :: "('r, 'k) dicts \<Rightarrow> 'r \<Rightarrow> 'k \<Rightarrow> int \<times> ('r, 'k) dicts" where
  "getitem s r k =
     (case map_of (s r) k of
        Some v \<Rightarrow> (v, s)
      | None \<Rightarrow> (0, s(r := s r @ [(k, 0)])))"

fun cat_counts :: "('r, 'k) dicts \<Rightarrow> 'r \<Rightarrow> 'k list \<Rightarrow> int list \<times> ('r, 'k) dicts" where
  "cat_counts s r [] = ([], s)"
| "cat_counts s r (cat # cats) =
     (case (if contains (s r) cat then getitem s r cat else (0, s)) of
        (c, s1) \<Rightarrow> (case cat_counts s1 r cats of (cs, s2) \<Rightarrow> (c # cs, s2)))"

text \<open>
  The result dict, with its three keys \<^verbatim>\<open>chi2-statistic\<close>, \<^verbatim>\<open>df\<close> and
  \<^verbatim>\<open>p-value\<close>; \<open>None\<close> is Python's \<^verbatim>\<open>None\<close>.
\<close>

record chi2_results =
  res_statistic :: "pynum option"
  res_df :: "int option"
  res_p_value :: "pynum option"

text \<open>
  The loops that fill \<^verbatim>\<open>expected\<close>: \<open>fill_row\<close> is the inner loop over \<open>j\<close>,
  \<open>fill_expected\<close> the outer loop over \<open>i\<close>, which first appends an empty list
  to \<^verbatim>\<open>expected\<close>.
\<close>

fun fill_row :: "rat option list \<Rightarrow> int \<Rightarrow> int list \<Rightarrow> int \<Rightarrow> nat list
                 \<Rightarrow> error + rat option list" where
  "fill_row row row_sum col_sums grand_total [] = Inr row"
| "fill_row row row_sum col_sums grand_total (j # js) =
     (case truediv (of_int (row_sum * col_sums ! j)) (of_int grand_total) of
        Inl e \<Rightarrow> Inl e
      | Inr v \<Rightarrow>
          if j < length row then fill_row (row[j := Some v]) row_sum col_sums grand_total js
          else Inl IndexError)"

fun fill_expected :: "rat option list list \<Rightarrow> int list \<Rightarrow> int list \<Rightarrow> int \<Rightarrow> nat list
                      \<Rightarrow> error + rat option list list" where
  "fill_expected expected row_sums col_sums grand_total [] = Inr expected"
| "fill_expected expected row_sums col_sums grand_total (i # is) =
     (case fill_row ((expected @ [[]]) ! i) (row_sums ! i) col_sums grand_total
             [0 ..< length col_sums] of
        Inl e \<Rightarrow> Inl e
      | Inr row \<Rightarrow> fill_expected ((expected @ [[]])[i := row]) row_sums col_sums grand_total is)"

text \<open>The loops that add up the statistic, over \<open>j\<close> and over \<open>i\<close>.\<close>

fun statistic_row :: "int list \<Rightarrow> rat option list \<Rightarrow> rat \<Rightarrow> nat list \<Rightarrow> error + rat" where
  "statistic_row obsd expd chi2_statistic [] = Inr chi2_statistic"
| "statistic_row obsd expd chi2_statistic (j # js) =
     (if length expd \<le> j then Inl IndexError
      else (case expd ! j of
              None \<Rightarrow> Inl (TypeError ''unsupported operand type(s) for -'')
            | Some e \<Rightarrow>
                (case truediv ((of_int (obsd ! j) - e)\<^sup>2) e of
                   Inl err \<Rightarrow> Inl err
                 | Inr t \<Rightarrow> statistic_row obsd expd (chi2_statistic + t) js)))"

fun statistic_rows :: "int list list \<Rightarrow> rat option list list \<Rightarrow> rat \<Rightarrow> nat list
                       \<Rightarrow> error + rat" where
  "statistic_rows observed expected chi2_statistic [] = Inr chi2_statistic"
| "statistic_rows observed expected chi2_statistic (i # is) =
     (case statistic_row (observed ! i) (expected ! i) chi2_statistic
             [0 ..< length (observed ! i)] of
        Inl e \<Rightarrow> Inl e
      | Inr acc \<Rightarrow> statistic_rows observed expected acc is)"

text \<open>
  \<^verbatim>\<open>combined_cats = list(set(categories1.keys()).union(set(categories2.keys())))\<close>:
  Python leaves the order in which a set is listed open, so the list is an argument of
  the model, and \<open>is_combined_cats\<close> says that it lists the union of the two key
  sets, each key once. The theorems hold for every such list.
\<close>

definition is_combined_cats :: "'k list \<Rightarrow> 'k dict \<Rightarrow> 'k dict \<Rightarrow> bool" where
  "is_combined_cats combined_cats categories1 categories2 =
     (distinct combined_cats
      \<and> set combined_cats = set (keys categories1) \<union> set (keys categories2))"

text \<open>
  \<open>scipy\<close> is the statistics backend: \<open>None\<close> when \<^verbatim>\<open>import scipy.stats\<close> fails,
  otherwise \<open>Some cdf\<close> with \<open>cdf df x\<close> the value of
  \<^verbatim>\<open>scipy.stats.chi2(df).cdf(x)\<close>.
\<close>

definition scipy_missing :: string where
  "scipy_missing =
     ''Could not import necessary statistical packages. To successfully perform the chi-squared test, please run 'pip install scipy.' Test results will be incomplete.''"

definition perform_chi_squared_test ::
  "(int \<Rightarrow> rat \<Rightarrow> rat) option \<Rightarrow> 'k list \<Rightarrow> ('r, 'k) dicts \<Rightarrow> 'r \<Rightarrow> 'r
     \<Rightarrow> (error + chi2_results) \<times> warning list \<times> ('r, 'k) dicts" where
  "perform_chi_squared_test scipy combined_cats s categories1 categories2 =
     (let results = \<lparr>res_statistic = None, res_df = None, res_p_value = None\<rparr>;
          num_cats = length combined_cats
      in if length combined_cats < 1
         then (Inr results,
               [RuntimeWarning
                  ''Insufficient number of categories. Chi-squared test cannot be performed.''],
               s)
         else
           (let results = results\<lparr>res_df := Some (int num_cats - 1)\<rparr> in
            case cat_counts s categories1 combined_cats of (cat_counts1, s1) \<Rightarrow>
            case cat_counts s1 categories2 combined_cats of (cat_counts2, s2) \<Rightarrow>
            (let observed = [cat_counts1, cat_counts2];
                 row_sums = [sum_list cat_counts1, sum_list cat_counts2];
                 col_sums = map (\<lambda>i. cat_counts1 ! i + cat_counts2 ! i)
                              [0 ..< length combined_cats];
                 grand_total = sum_list row_sums
             in if 0 \<in> set row_sums \<or> 0 \<in> set col_sums
                then (Inr (results\<lparr>res_statistic := Some Infinity,
                                   res_p_value := Some (Finite 0)\<rparr>), [], s2)
                else
                  (case fill_expected [replicate num_cats None, replicate num_cats None]
                          row_sums col_sums grand_total [0 ..< length row_sums] of
                     Inl e \<Rightarrow> (Inl e, [], s2)
                   | Inr expected \<Rightarrow>
                       (case statistic_rows observed expected 0 [0 ..< length observed] of
                          Inl e \<Rightarrow> (Inl e, [], s2)
                        | Inr chi2 \<Rightarrow>
                            (let results = results\<lparr>res_statistic := Some (Finite chi2)\<rparr> in
                             case scipy of
                               None \<Rightarrow>
                                 (Inr results,
                                  [RuntimeWarning scipy_missing],
                                  s2)
                             | Some cdf \<Rightarrow>
                                 (Inr (results\<lparr>res_p_value :=
                                         Some (Finite (1 - cdf (int num_cats - 1) chi2))\<rparr>),
                                  [], s2)))))))"


text \<open>
  The contingency table as the specification describes it: the observed count of a
  category in a group is \<open>get_or_zero\<close>, a row sum is a group's total, a column sum
  is a category's total over both groups, the expected count of a cell is
  \<open>row_sum * col_sum / grand_total\<close>, and the statistic is the sum over the cells of
  \<open>(observed - expected)\<^sup>2 / expected\<close>.
\<close>

definition row_sum :: "'k list \<Rightarrow> 'k dict \<Rightarrow> int" where
  "row_sum cats d = (\<Sum>cat\<leftarrow>cats. get_or_zero d cat)"

definition col_sum :: "'k dict \<Rightarrow> 'k dict \<Rightarrow> 'k \<Rightarrow> int" where
  "col_sum d1 d2 cat = get_or_zero d1 cat + get_or_zero d2 cat"

definition expected_count :: "'k list \<Rightarrow> 'k dict \<Rightarrow> 'k dict \<Rightarrow> 'k dict \<Rightarrow> 'k \<Rightarrow> rat" where
  "expected_count cats d1 d2 d cat =
     of_int (row_sum cats d * col_sum d1 d2 cat) / of_int (row_sum cats d1 + row_sum cats d2)"

definition chi2_cell :: "'k list \<Rightarrow> 'k dict \<Rightarrow> 'k dict \<Rightarrow> 'k dict \<Rightarrow> 'k \<Rightarrow> rat" where
  "chi2_cell cats d1 d2 d cat =
     (of_int (get_or_zero d cat) - expected_count cats d1 d2 d cat)\<^sup>2
       / expected_count cats d1 d2 d cat"

definition homogeneity_statistic :: "'k list \<Rightarrow> 'k dict \<Rightarrow> 'k dict \<Rightarrow> rat" where
  "homogeneity_statistic cats d1 d2 =
     (\<Sum>d\<leftarrow>[d1, d2]. \<Sum>cat\<leftarrow>cats. chi2_cell cats d1 d2 d cat)"

text \<open>What the function returns once the statistic \<open>chi2\<close> is computed.\<close>

definition test_outcome ::
  "(int \<Rightarrow> rat \<Rightarrow> rat) option \<Rightarrow> nat \<Rightarrow> rat \<Rightarrow> (error + chi2_results) \<times> warning list" where
  "test_outcome scipy k chi2 =
     (case scipy of
        None \<Rightarrow>
          (Inr \<lparr>res_statistic = Some (Finite chi2), res_df = Some (int k - 1),
                res_p_value = None\<rparr>,
           [RuntimeWarning scipy_missing])
      | Some cdf \<Rightarrow>
          (Inr \<lparr>res_statistic = Some (Finite chi2), res_df = Some (int k - 1),
                res_p_value = Some (Finite (1 - cdf (int k - 1) chi2))\<rparr>,
           []))"

subsection \<open>Merging two profiles\<close>

text \<open>
  Modelled from the spec: \<^verbatim>\<open>utils.add_nested_dictionaries\<close> is not part of the file.
  The specification says of the counter merge: it ``produces a new mapping containing
  every key present in \<open>a\<close> or \<open>b\<close>, with count = count in \<open>a\<close> (0 if absent) +
  count in \<open>b\<close> (0 if absent)''.
\<close>

definition add_nested_dictionaries :: "'k dict \<Rightarrow> 'k dict \<Rightarrow> 'k dict" where
  "add_nested_dictionaries a b =
     map (\<lambda>k. (k, get_or_zero a k + get_or_zero b k)) (remdups (keys a @ keys b))"

text \<open>
  Profiles are objects: \<^verbatim>\<open>__add__\<close> and \<^verbatim>\<open>diff\<close> receive references, and the
  second operand may be an object of any class. The heap is the list of the objects
  allocated so far, a reference is an index into it, and a new object is appended.
  \<open>Instance cls\<close> is an object of a class \<open>cls\<close> other than
  \<^verbatim>\<open>CategoricalColumn\<close>. The dict \<^verbatim>\<open>_categories\<close> of a profile is owned by that
  profile alone, so it is kept inside the object.
\<close>

datatype 'k pyobj = Profile "'k CategoricalColumn" | Instance string

type_synonym 'k heap = "'k pyobj list"

text \<open>
  Modelled from the spec: \<^verbatim>\<open>BaseColumnProfiler.__init__\<close> is not part of the file; ``a
  profile is created empty'', so \<^verbatim>\<open>CategoricalColumn(None)\<close> has no categories, the
  sample size 0 and no top-k limit.
\<close>

definition init_None :: "'k CategoricalColumn" where
  "init_None = \<lparr>priv_categories = [], sample_size = 0, top_k_categories = None\<rparr>"

text \<open>
  Modelled from the spec: \<^verbatim>\<open>BaseColumnProfiler._add_helper\<close> is not part of the file;
  ``sample-size and timing aggregation are delegated to the external base-profiler
  merge helper'' and ``no in-place mutation of either input'': the helper writes the sum
  of the two sample sizes into the merged profile and reads the two operands.
  \<^verbatim>\<open>_merge_calculations\<close> works on the three \<^verbatim>\<open>__calculations\<close> dicts, which are
  empty, and is left out.
\<close>

definition add_helper ::
  "'k CategoricalColumn \<Rightarrow> 'k CategoricalColumn \<Rightarrow> 'k CategoricalColumn
     \<Rightarrow> 'k CategoricalColumn" where
  "add_helper merged other1 other2 =
     merged\<lparr>sample_size := sample_size other1 + sample_size other2\<rparr>"

text \<open>
  \<^verbatim>\<open>__add__\<close>: the \<^verbatim>\<open>isinstance\<close> check comes first and raises \<^verbatim>\<open>TypeError\<close> with
  the class name of the operand. \<open>self\<close> is the receiver, a \<^verbatim>\<open>CategoricalColumn\<close>;
  on any other object the read of \<^verbatim>\<open>self._categories\<close> would fail with
  \<^verbatim>\<open>AttributeError\<close>. The merged profile is a new object, appended to the heap, and
  the three assignments that follow write to it alone.
\<close>

definition unsupported_operand :: "string \<Rightarrow> string" where
  "unsupported_operand cls =
     ''Unsupported operand type(s) for +: 'CategoricalColumn' and '' @ [CHR 0x27] @ cls
       @ [CHR 0x27]"

definition add :: "'k heap \<Rightarrow> nat \<Rightarrow> nat \<Rightarrow> (error + nat) \<times> 'k heap" where
  "add h self other =
     (case h ! other of
        Instance cls \<Rightarrow> (Inl (TypeError (unsupported_operand cls)), h)
      | Profile other_p \<Rightarrow>
          (case h ! self of
             Instance cls \<Rightarrow> (Inl AttributeError, h)
           | Profile self_p \<Rightarrow>
               (let merged_profile = length h;
                    h1 = h @ [Profile init_None];
                    h2 = h1[merged_profile := Profile (init_None\<lparr>priv_categories :=
                           add_nested_dictionaries (priv_categories self_p)
                             (priv_categories other_p)\<rparr>)];
                    h3 = (case h2 ! merged_profile of
                            Profile merged \<Rightarrow>
                              h2[merged_profile := Profile (add_helper merged self_p other_p)]
                          | Instance cls \<Rightarrow> h2)
                in (Inr merged_profile, h3))))"

subsection \<open>Comparing two profiles\<close>

text \<open>
  The four \<^verbatim>\<open>utils.find_diff_of_...\<close> functions are not part of the file. \<open>diff\<close>
  stores what they return under a key of the report and never looks at it, so they are
  arguments of the model: functions into a type \<open>'v\<close> of report values. They are
  handed numbers, booleans, a fresh list of keys and a fresh sorted dict, never a
  profile or its dict.
\<close>

record ('k, 'v) utils =
  find_diff_of_strings_and_bools :: "bool \<Rightarrow> bool \<Rightarrow> 'v"
  find_diff_of_numbers :: "rat option \<Rightarrow> rat option \<Rightarrow> 'v"
  find_diff_of_lists_and_sets :: "'k list \<Rightarrow> 'k list \<Rightarrow> 'v"
  find_diff_of_dicts :: "'k dict \<Rightarrow> 'k dict \<Rightarrow> 'v"

text \<open>
  The report is a dict from strings to values; \<^verbatim>\<open>differences["statistics"]\<close> is
  itself a dict, and \<^verbatim>\<open>differences["chi2-test"]\<close> is the result of the test.
\<close>

datatype 'v entry = Diff 'v | Statistics "(string \<times> 'v) list" | Chi2_test chi2_results

type_synonym 'v report = "(string \<times> 'v entry) list"

text \<open>
  What \<open>diff\<close> does besides returning: the warnings emitted, and the call of
  \<^verbatim>\<open>_perform_chi_squared_test\<close>, recorded at the call site.
\<close>

datatype event = Warned warning | Invoked_perform_chi_squared_test

text \<open>
  Modelled from the spec: \<^verbatim>\<open>BaseColumnProfiler.diff\<close> (called as
  \<^verbatim>\<open>super().diff(other_profile, options)\<close>) is not part of the file. The
  specification lists as the fields of the diff report only those that
  \<^verbatim>\<open>CategoricalColumn.diff\<close> sets itself, so the dict it starts from is empty, and
  ``diff does not mutate its inputs''.
\<close>

definition base_diff :: "'v report" where
  "base_diff = []"

text \<open>\<^verbatim>\<open>differences["statistics"][k] = v\<close>.\<close>

definition set_statistic :: "string \<Rightarrow> 'v \<Rightarrow> 'v report \<Rightarrow> error + 'v report" where
  "set_statistic k v differences =
     (case map_of differences ''statistics'' of
        None \<Rightarrow> Inl KeyError
      | Some (Statistics st) \<Rightarrow>
          Inr (AList.update ''statistics'' (Statistics (AList.update k v st)) differences)
      | Some _ \<Rightarrow> Inl (TypeError ''object does not support item assignment''))"

text \<open>
  \<^verbatim>\<open>dict(sorted(d.items(), key=itemgetter(1), reverse=True))\<close>: a stable sort by
  descending count.
\<close>

definition sorted_by_count :: "'k dict \<Rightarrow> 'k dict" where
  "sorted_by_count d = sort_key (\<lambda>kv. - snd kv) d"

text \<open>
  \<open>diff_common\<close> is the part of \<open>diff\<close> before the \<^verbatim>\<open>if\<close>, \<open>both_match\<close> its
  condition \<^verbatim>\<open>self.is_match and other_profile.is_match\<close>, and \<open>diff_categorical\<close>
  the assignments under the \<^verbatim>\<open>if\<close> that follow the chi-squared test.
\<close>

definition diff_common ::
  "('k, 'v) utils \<Rightarrow> 'k CategoricalColumn \<Rightarrow> 'k CategoricalColumn \<Rightarrow> error + 'v report" where
  "diff_common utils self other_profile =
     (case is_match self of Inl e \<Rightarrow> Inl e | Inr m1 \<Rightarrow>
      case is_match other_profile of Inl e \<Rightarrow> Inl e | Inr m2 \<Rightarrow>
      (let differences =
             AList.update ''categorical''
               (Diff (find_diff_of_strings_and_bools utils m1 m2)) base_diff
       in
       case unique_ratio self of Inl e \<Rightarrow> Inl e | Inr r1 \<Rightarrow>
       case unique_ratio other_profile of Inl e \<Rightarrow> Inl e | Inr r2 \<Rightarrow>
       Inr (AList.update ''statistics''
              (Statistics
                 [(''unique_count'',
                   find_diff_of_numbers utils
                     (Some (of_nat (length (categories self))))
                     (Some (of_nat (length (categories other_profile))))),
                  (''unique_ratio'', find_diff_of_numbers utils (Some r1) (Some r2))])
              differences)))"

definition both_match :: "'k CategoricalColumn \<Rightarrow> 'k CategoricalColumn \<Rightarrow> error + bool" where
  "both_match self other_profile =
     (case is_match self of
        Inl e \<Rightarrow> Inl e
      | Inr m \<Rightarrow> if m then is_match other_profile else Inr False)"

definition diff_categorical ::
  "('k, 'v) utils \<Rightarrow> 'k CategoricalColumn \<Rightarrow> 'k CategoricalColumn \<Rightarrow> 'v report
     \<Rightarrow> error + 'v report" where
  "diff_categorical utils self other_profile differences =
     (case set_statistic ''categories''
             (find_diff_of_lists_and_sets utils (categories self) (categories other_profile))
             differences of Inl e \<Rightarrow> Inl e | Inr d1 \<Rightarrow>
      case gini_impurity self of Inl e \<Rightarrow> Inl e | Inr g1 \<Rightarrow>
      case gini_impurity other_profile of Inl e \<Rightarrow> Inl e | Inr g2 \<Rightarrow>
      case set_statistic ''gini_impurity'' (find_diff_of_numbers utils g1 g2) d1 of
        Inl e \<Rightarrow> Inl e | Inr d2 \<Rightarrow>
      case unalikeability self of Inl e \<Rightarrow> Inl e | Inr u1 \<Rightarrow>
      case unalikeability other_profile of Inl e \<Rightarrow> Inl e | Inr u2 \<Rightarrow>
      case set_statistic ''unalikeability'' (find_diff_of_numbers utils u1 u2) d2 of
        Inl e \<Rightarrow> Inl e | Inr d3 \<Rightarrow>
      (let cat_count1 = sorted_by_count (priv_categories self);
           cat_count2 = sorted_by_count (priv_categories other_profile)
       in set_statistic ''categorical_count''
            (find_diff_of_dicts utils cat_count1 cat_count2) d3))"

text \<open>
  The dicts of the profiles on the heap, as the store that the chi-squared test works
  on, and the heap with the dicts of a store written back.
\<close>

definition categories_of :: "'k heap \<Rightarrow> nat \<Rightarrow> 'k dict" where
  "categories_of h a = (case h ! a of Profile p \<Rightarrow> priv_categories p | Instance cls \<Rightarrow> [])"

definition store_categories :: "'k heap \<Rightarrow> (nat \<Rightarrow> 'k dict) \<Rightarrow> 'k heap" where
  "store_categories h s =
     map (\<lambda>(a, ob). case ob of
                       Profile p \<Rightarrow> Profile (p\<lparr>priv_categories := s a\<rparr>)
                     | Instance cls \<Rightarrow> Instance cls)
       (enumerate 0 h)"

text \<open>
  \<open>diff\<close> returns the report or an error, the events, and the heap. For an operand
  that is not a \<^verbatim>\<open>CategoricalColumn\<close> the outcome is decided outside this file
  (by the base profiler and by the attributes of that object); the model reports an
  error there. The argument \<^verbatim>\<open>options\<close> is only handed on to the base profiler.
\<close>

definition diff ::
  "('k, 'v) utils \<Rightarrow> (int \<Rightarrow> rat \<Rightarrow> rat) option \<Rightarrow> 'k list \<Rightarrow> 'k heap \<Rightarrow> nat \<Rightarrow> nat
     \<Rightarrow> (error + 'v report) \<times> event list \<times> 'k heap" where
  "diff utils scipy combined_cats h self other_profile =
     (case h ! self of
        Instance cls \<Rightarrow> (Inl AttributeError, [], h)
      | Profile self_p \<Rightarrow>
     (case h ! other_profile of
        Instance cls \<Rightarrow> (Inl AttributeError, [], h)
      | Profile other_p \<Rightarrow>
     (case diff_common utils self_p other_p of
        Inl e \<Rightarrow> (Inl e, [], h)
      | Inr differences \<Rightarrow>
     (case both_match self_p other_p of
        Inl e \<Rightarrow> (Inl e, [], h)
      | Inr both \<Rightarrow>
          if \<not> both then (Inr differences, [], h)
          else
            (case perform_chi_squared_test scipy combined_cats (categories_of h)
                    self other_profile of
               (res, ws, s) \<Rightarrow>
                 (let h1 = store_categories h s;
                      events = Invoked_perform_chi_squared_test # map Warned ws
                  in case res of
                       Inl e \<Rightarrow> (Inl e, events, h1)
                     | Inr chi2 \<Rightarrow>
                         (case h1 ! self of
                            Instance cls \<Rightarrow> (Inl AttributeError, events, h1)
                          | Profile self1 \<Rightarrow>
                         (case h1 ! other_profile of
                            Instance cls \<Rightarrow> (Inl AttributeError, events, h1)
                          | Profile other1 \<Rightarrow>
                              (diff_categorical utils self1 other1
                                 (AList.update ''chi2-test'' (Chi2_test chi2) differences),
                               events, h1)))))))))"

text \<open>The keys of \<^verbatim>\<open>report["statistics"]\<close>.\<close>

definition statistics_keys :: "'v report \<Rightarrow> string set" where
  "statistics_keys report =
     (case map_of report ''statistics'' of
        Some (Statistics st) \<Rightarrow> fst ` set st
      | _ \<Rightarrow> {})"

subsection \<open>Example data\<close>

definition example_utils :: "(nat, unit) utils" where
  "example_utils =
     \<lparr>find_diff_of_strings_and_bools = (\<lambda>a b. ()), find_diff_of_numbers = (\<lambda>a b. ()),
      find_diff_of_lists_and_sets = (\<lambda>a b. ()), find_diff_of_dicts = (\<lambda>a b. ())\<rparr>"

definition example_A :: "nat CategoricalColumn" where
  "example_A = \<lparr>priv_categories = [(2, 10), (3, 30)], sample_size = 40,
                 top_k_categories = None\<rparr>"

definition example_B :: "nat CategoricalColumn" where
  "example_B = \<lparr>priv_categories = [(4, 5), (3, 10)], sample_size = 15,
                 top_k_categories = None\<rparr>"

definition example_C :: "nat CategoricalColumn" where
  "example_C = \<lparr>priv_categories = map (\<lambda>i. (i, 1)) [0 ..< 11], sample_size = 11,
                 top_k_categories = None\<rparr>"

definition example_heap :: "nat heap" where
  "example_heap = [Profile example_A, Profile example_B, Profile example_C,
                   Instance ''IntColumn'']"

section \<open>Properties\<close>

subsection \<open>unique\_ratio and is\_match\<close>

lemma unique_ratio_value:
  "unique_ratio self =
     Inr (if sample_size self = 0 then 1
          else of_nat (length (priv_categories self)) / of_int (sample_size self))"
  by (simp add: unique_ratio_def truediv_def categories_def keys_def)

text \<open>
  C10. With \<open>sample_size = 0\<close> the property \<open>unique_ratio\<close> is exactly 1, whatever
  the dict of categories holds, and the division is reached only when
  \<open>sample_size\<close> is not zero: the property never raises.
\<close>

theorem unique_ratio_zero_sample:
  "(sample_size self = 0 \<longrightarrow> unique_ratio self = Inr 1)
   \<and> unique_ratio self \<noteq> Inl ZeroDivisionError"
  by (simp add: unique_ratio_value)

theorem unique_ratio_zero_sample_witness:
  "unique_ratio \<lparr>priv_categories = [(''a'', 0), (''b'', 0)], sample_size = 0,
      top_k_categories = None\<rparr> = Inr 1"
  using unique_ratio_zero_sample
    [of "\<lparr>priv_categories = [(''a'', 0), (''b'', 0)], sample_size = 0,
         top_k_categories = None\<rparr>"]
  by simp

text \<open>
  C1. A profile with at most 10 distinct keys is categorical whatever its sample size;
  with more than 10 keys it is categorical exactly when \<open>sample_size > 0\<close> and the
  ratio of keys to \<open>sample_size\<close> is at most \<open>0.2\<close>. With more than 10 keys and
  \<open>sample_size = 0\<close> the answer is \<open>False\<close>, and no division by zero happens.
  The sample size is a count, so it is not negative.
\<close>

theorem is_match_rule:
  "0 \<le> sample_size self \<Longrightarrow>
   is_match self =
     Inr (length (priv_categories self) \<le> 10
          \<or> (0 < sample_size self
              \<and> of_nat (length (priv_categories self)) / of_int (sample_size self)
                  \<le> (1 / 5 :: rat)))"
  by (auto simp: is_match_def unique_ratio_value Let_def
        MAXIMUM_UNIQUE_VALUES_TO_CLASSIFY_AS_CATEGORICAL_def
        CATEGORICAL_THRESHOLD_DEFAULT_def)

theorem is_match_rule_witness:
  "0 \<le> sample_size \<lparr>priv_categories = map (\<lambda>i. (i, 1)) [0 ..< 30 :: nat],
           sample_size = 100, top_k_categories = None\<rparr>
   \<and> is_match \<lparr>priv_categories = map (\<lambda>i. (i, 1)) [0 ..< 30 :: nat],
           sample_size = 100, top_k_categories = None\<rparr> = Inr False
   \<and> is_match \<lparr>priv_categories = map (\<lambda>i. (i, 1)) [0 ..< 30 :: nat],
           sample_size = 0, top_k_categories = None\<rparr> = Inr False
   \<and> is_match \<lparr>priv_categories = map (\<lambda>i. (i, 200000)) [0 ..< 5 :: nat],
           sample_size = 1000000, top_k_categories = None\<rparr> = Inr True"
  using is_match_rule
      [of "\<lparr>priv_categories = map (\<lambda>i. (i, 1)) [0 ..< 30 :: nat],
           sample_size = 100, top_k_categories = None\<rparr>"]
    is_match_rule
      [of "\<lparr>priv_categories = map (\<lambda>i. (i, 1)) [0 ..< 30 :: nat],
           sample_size = 0, top_k_categories = None\<rparr>"]
    is_match_rule
      [of "\<lparr>priv_categories = map (\<lambda>i. (i, 200000)) [0 ..< 5 :: nat],
           sample_size = 1000000, top_k_categories = None\<rparr>"]
  by simp

subsection \<open>Gini impurity and unalikeability\<close>

lemma sum_list_const: "(\<forall>x \<in> set xs. f x = (c::rat)) \<Longrightarrow> (\<Sum>x\<leftarrow>xs. f x) = of_nat (length xs) * c"
  by (induction xs) (simp_all add: algebra_simps)




lemma square_sum_mono:
  fixes a S Q :: int
  assumes "Q \<le> S * S" "0 \<le> a * S"
  shows "a * a + Q \<le> (a + S) * (a + S)"
proof -
  have "(a + S) * (a + S) = a * a + 2 * (a * S) + S * S"
    by (simp add: algebra_simps)
  with assms show ?thesis by linarith
qed

lemma sum_sq_le:
  "counts_nonneg d \<Longrightarrow>
   (\<Sum>kv\<leftarrow>d. snd kv * snd kv) \<le> (\<Sum>kv\<leftarrow>d. snd kv) * (\<Sum>kv\<leftarrow>d. snd kv)
   \<and> 0 \<le> (\<Sum>kv\<leftarrow>d. snd kv)"
proof (induction d)
  case Nil show ?case by simp
next
  case (Cons a d)
  then have ih: "(\<Sum>kv\<leftarrow>d. snd kv * snd kv) \<le> (\<Sum>kv\<leftarrow>d. snd kv) * (\<Sum>kv\<leftarrow>d. snd kv)"
    and nn: "0 \<le> (\<Sum>kv\<leftarrow>d. snd kv)" and a: "0 \<le> snd a"
    by (simp_all add: counts_nonneg_def)
  have p: "0 \<le> snd a * (\<Sum>kv\<leftarrow>d. snd kv)" using a nn by simp
  show ?case using square_sum_mono [OF ih p] a nn by simp
qed



lemma round_to_even_cases:
  "round_to_even y = \<lfloor>y\<rfloor> \<and> y - of_int \<lfloor>y\<rfloor> \<le> 1 / 2
   \<or> round_to_even y = \<lfloor>y\<rfloor> + 1 \<and> 1 / 2 \<le> y - of_int \<lfloor>y\<rfloor>"
  by (simp add: round_to_even_def Let_def)

lemma round_to_even_err: "\<bar>of_int (round_to_even y) - y\<bar> \<le> 1 / 2"
proof -
  have "of_int \<lfloor>y\<rfloor> \<le> y" "y < of_int \<lfloor>y\<rfloor> + 1" by linarith+
  with round_to_even_cases [of y] show ?thesis by (auto simp: abs_le_iff)
qed

lemma round_to_even_nonneg: "0 \<le> y \<Longrightarrow> 0 \<le> round_to_even y"
proof -
  assume "0 \<le> y"
  then have "0 \<le> \<lfloor>y\<rfloor>" by simp
  with round_to_even_cases [of y] show ?thesis by auto
qed

lemma round_to_even_le:
  assumes "y \<le> of_int N"
  shows "round_to_even y \<le> N"
proof -
  have f: "\<lfloor>y\<rfloor> \<le> N" using assms by (simp add: floor_le_iff)
  from round_to_even_cases [of y] show ?thesis
  proof
    assume "round_to_even y = \<lfloor>y\<rfloor> \<and> y - of_int \<lfloor>y\<rfloor> \<le> 1 / 2"
    with f show ?thesis by simp
  next
    assume a: "round_to_even y = \<lfloor>y\<rfloor> + 1 \<and> 1 / 2 \<le> y - of_int \<lfloor>y\<rfloor>"
    then have "(of_int \<lfloor>y\<rfloor> :: rat) < of_int N" using assms by linarith
    then have "\<lfloor>y\<rfloor> < N" by (simp only: of_int_less_iff)
    with a show ?thesis by simp
  qed
qed

lemma floor_log2_small: "x < 2 \<Longrightarrow> floor_log2 x \<le> 0"
  by (simp add: floor_log2_def)

lemma double_exponent_small:
  "\<bar>x\<bar> < 2 \<Longrightarrow> max (floor_log2 \<bar>x\<bar> - 52) (- 1074) \<le> - 52"
  using floor_log2_small [of "\<bar>x\<bar>"] by simp

lemma powi_neg_nat:
  assumes "e \<le> - 52"
  obtains m where "52 \<le> m" and "(2 :: rat) powi e = 1 / 2 ^ m"
proof -
  define m where "m = nat (- e)"
  have e: "e = - int m" and m: "52 \<le> m" using assms by (simp_all add: m_def)
  have "(2 :: rat) powi e = 1 / 2 ^ m"
    unfolding e by (simp add: power_int_minus inverse_eq_divide)
  with m show thesis by (rule that)
qed

lemma round_double_err:
  assumes "\<bar>x\<bar> < 2"
  shows "\<bar>round_double x - x\<bar> \<le> 1 / 2 ^ 53"
proof (cases "x = 0")
  case True
  then show ?thesis by (simp add: round_double_def)
next
  case False
  define e where "e = max (floor_log2 \<bar>x\<bar> - 52) (- 1074)"
  have "e \<le> - 52" unfolding e_def using assms by (rule double_exponent_small)
  then obtain m where m: "52 \<le> m" and p: "(2 :: rat) powi e = 1 / 2 ^ m"
    by (rule powi_neg_nat)
  define y where "y = x * 2 ^ m"
  have rd: "round_double x = of_int (round_to_even y) / 2 ^ m"
    using False by (simp add: round_double_def Let_def e_def [symmetric] p y_def)
  have x: "x = y / 2 ^ m" by (simp add: y_def)
  have "round_double x - x = (of_int (round_to_even y) - y) / 2 ^ m"
    unfolding rd by (simp add: x diff_divide_distrib)
  then have "\<bar>round_double x - x\<bar> = \<bar>of_int (round_to_even y) - y\<bar> / 2 ^ m"
    by (simp add: abs_divide)
  also have "\<dots> \<le> (1 / 2) / 2 ^ m"
    by (rule divide_right_mono [OF round_to_even_err]) simp
  also have "\<dots> \<le> (1 / 2) / 2 ^ 52"
    using m by (intro divide_left_mono power_increasing) simp_all
  finally show ?thesis by simp
qed

lemma round_double_unit:
  assumes "0 \<le> x" "x \<le> 1"
  shows "0 \<le> round_double x \<and> round_double x \<le> 1"
proof (cases "x = 0")
  case True
  then show ?thesis by (simp add: round_double_def)
next
  case False
  define e where "e = max (floor_log2 \<bar>x\<bar> - 52) (- 1074)"
  have "\<bar>x\<bar> < 2" using assms by simp
  then have "e \<le> - 52" unfolding e_def by (rule double_exponent_small)
  then obtain m where m: "52 \<le> m" and p: "(2 :: rat) powi e = 1 / 2 ^ m"
    by (rule powi_neg_nat)
  define y where "y = x * 2 ^ m"
  have rd: "round_double x = of_int (round_to_even y) / 2 ^ m"
    using False by (simp add: round_double_def Let_def e_def [symmetric] p y_def)
  have y0: "0 \<le> y" using assms(1) by (simp add: y_def)
  have "y \<le> 1 * 2 ^ m" unfolding y_def using assms(2) by (intro mult_right_mono) simp_all
  then have "y \<le> of_int (2 ^ m)" by simp
  then have "round_to_even y \<le> 2 ^ m" by (rule round_to_even_le)
  then have "(of_int (round_to_even y) :: rat) \<le> of_int (2 ^ m)" by (simp only: of_int_le_iff)
  then have hi: "(of_int (round_to_even y) :: rat) \<le> 2 ^ m" by simp
  have lo: "(0 :: rat) \<le> of_int (round_to_even y)"
    using round_to_even_nonneg [OF y0] by simp
  show ?thesis unfolding rd using lo hi by (simp add: divide_le_eq)
qed

lemma round_double_nonneg_small:
  assumes "0 \<le> x" "x < 2"
  shows "0 \<le> round_double x"
proof (cases "x = 0")
  case True
  then show ?thesis by (simp add: round_double_def)
next
  case False
  define e where "e = max (floor_log2 \<bar>x\<bar> - 52) (- 1074)"
  have "\<bar>x\<bar> < 2" using assms by simp
  then have "e \<le> - 52" unfolding e_def by (rule double_exponent_small)
  then obtain m where m: "52 \<le> m" and p: "(2 :: rat) powi e = 1 / 2 ^ m"
    by (rule powi_neg_nat)
  define y where "y = x * 2 ^ m"
  have rd: "round_double x = of_int (round_to_even y) / 2 ^ m"
    using False by (simp add: round_double_def Let_def e_def [symmetric] p y_def)
  have y0: "0 \<le> y" using assms(1) by (simp add: y_def)
  have lo: "(0 :: rat) \<le> of_int (round_to_even y)"
    using round_to_even_nonneg [OF y0] by simp
  show ?thesis unfolding rd using lo by simp
qed

lemma round_double_one: "round_double 1 = 1"
  by code_simp

lemma round_double_zero: "round_double 0 = 0"
  by (simp add: round_double_def)

lemma gini_loop_foldl:
  "n \<noteq> 0 \<Longrightarrow>
   gini_loop d n acc =
     Inr (foldl (\<lambda>s kv. float_add s (double_gini_term n (snd kv))) acc d)"
  by (induction d n acc rule: gini_loop.induct)
     (simp_all add: int_truediv_def double_gini_term_def)

lemma abs_mult_le:
  fixes a b :: rat
  assumes "\<bar>a\<bar> \<le> A" "\<bar>b\<bar> \<le> B"
  shows "\<bar>a * b\<bar> \<le> A * B"
proof -
  have "0 \<le> \<bar>a\<bar>" "0 \<le> \<bar>b\<bar>" by simp_all
  with assms have "\<bar>a\<bar> * \<bar>b\<bar> \<le> A * B" by (intro mult_mono) linarith+
  then show ?thesis by (simp add: abs_mult)
qed

lemma double_gini_term_err:
  fixes p :: rat
  assumes "0 \<le> p" "p \<le> 1"
  defines "ph \<equiv> round_double p"
  defines "T \<equiv> float_mul ph (float_sub 1 ph)"
  shows "0 \<le> T \<and> T \<le> 1 \<and> \<bar>T - p * (1 - p)\<bar> \<le> 4 / 2 ^ 53"
proof -
  define qh where "qh = float_sub 1 ph"
  have ph: "0 \<le> ph" "ph \<le> 1" unfolding ph_def using round_double_unit [OF assms(1,2)] by simp_all
  have phe: "\<bar>ph - p\<bar> \<le> 1 / 2 ^ 53"
    unfolding ph_def using assms(1,2) by (intro round_double_err) simp
  have q: "0 \<le> 1 - ph" "1 - ph \<le> 1" using ph by simp_all
  have qh: "0 \<le> qh" "qh \<le> 1"
    unfolding qh_def float_sub_def using round_double_unit [OF q] by simp_all
  have qhe: "\<bar>qh - (1 - ph)\<bar> \<le> 1 / 2 ^ 53"
    unfolding qh_def float_sub_def using q by (intro round_double_err) simp
  have prod: "0 \<le> ph * qh" "ph * qh \<le> 1"
    using ph qh by (simp_all add: mult_le_one)
  have T: "T = round_double (ph * qh)" by (simp add: T_def float_mul_def qh_def)
  have Tb: "0 \<le> T" "T \<le> 1" unfolding T using round_double_unit [OF prod] by simp_all
  have Te: "\<bar>T - ph * qh\<bar> \<le> 1 / 2 ^ 53"
    unfolding T using prod by (intro round_double_err) simp
  have e1: "\<bar>ph * (qh - (1 - ph))\<bar> \<le> 1 * (1 / 2 ^ 53)"
    using ph qhe by (intro abs_mult_le) simp_all
  have "\<bar>1 - ph - p\<bar> \<le> 1" using ph assms(1,2) by (simp add: abs_le_iff)
  with phe have e2: "\<bar>(ph - p) * (1 - ph - p)\<bar> \<le> (1 / 2 ^ 53) * 1"
    by (intro abs_mult_le)
  have split: "T - p * (1 - p)
      = (T - ph * qh) + ph * (qh - (1 - ph)) + (ph - p) * (1 - ph - p)"
    by (simp add: algebra_simps)
  have "\<bar>T - p * (1 - p)\<bar> \<le> 4 / 2 ^ 53"
    unfolding split using Te e1 e2 by linarith
  with Tb show ?thesis by simp
qed

lemma gini_term_bounds:
  fixes p :: rat
  assumes "0 \<le> p" "p \<le> 1"
  shows "0 \<le> p * (1 - p)" and "p * (1 - p) \<le> p"
proof -
  show "0 \<le> p * (1 - p)" using assms by simp
  have "p * (1 - p) \<le> p * 1" using assms by (intro mult_left_mono) simp_all
  then show "p * (1 - p) \<le> p" by simp
qed

lemma gini_term_unit:
  assumes "(0 :: rat) \<le> of_int c / of_int n" "of_int c / of_int n \<le> (1 :: rat)"
  shows "0 \<le> gini_term n c" and "gini_term n c \<le> of_int c / of_int n"
  unfolding gini_term_def using gini_term_bounds [OF assms] by simp_all

lemma gini_term_sum_nonneg:
  "unit_fractions d n \<Longrightarrow> 0 \<le> (\<Sum>kv\<leftarrow>d. gini_term n (snd kv))"
proof (induction d)
  case Nil
  show ?case by simp
next
  case (Cons kv d)
  then have "0 \<le> gini_term n (snd kv)" and "unit_fractions d n"
    by (simp_all add: unit_fractions_def gini_term_unit(1))
  with Cons.IH show ?case by simp
qed

lemma gini_term_sum_le:
  "unit_fractions d n \<Longrightarrow>
   (\<Sum>kv\<leftarrow>d. gini_term n (snd kv)) \<le> (\<Sum>kv\<leftarrow>d. of_int (snd kv) / of_int n)"
proof (induction d)
  case Nil
  show ?case by simp
next
  case (Cons kv d)
  then have "gini_term n (snd kv) \<le> of_int (snd kv) / of_int n" and "unit_fractions d n"
    by (simp_all add: unit_fractions_def gini_term_unit(2))
  with Cons.IH show ?case by simp
qed

lemma gini_loop_err:
  assumes "n \<noteq> 0" "unit_fractions d n"
    and "0 \<le> ah" "\<bar>ah - a\<bar> \<le> E"
    and "a + (\<Sum>kv\<leftarrow>d. gini_term n (snd kv)) \<le> 1"
    and "E + of_nat (length d) / 2 ^ 50 \<le> 1 / 2"
  shows "\<exists>r. gini_loop d n ah = Inr r \<and> 0 \<le> r
            \<and> \<bar>r - (a + (\<Sum>kv\<leftarrow>d. gini_term n (snd kv)))\<bar> \<le> E + of_nat (length d) / 2 ^ 50"
  using assms
proof (induction d arbitrary: ah a E)
  case Nil
  then show ?case by simp
next
  case (Cons kv d)
  obtain k c where kv: "kv = (k, c)" by (cases kv)
  define p :: rat where "p = of_int c / of_int n"
  define T where "T = double_gini_term n c"
  have p: "0 \<le> p" "p \<le> 1" and rest: "unit_fractions d n"
    using Cons.prems(2) by (simp_all add: unit_fractions_def kv p_def)
  have t: "gini_term n c = p * (1 - p)" by (simp add: gini_term_def p_def)
  have T: "0 \<le> T" "T \<le> 1" "\<bar>T - p * (1 - p)\<bar> \<le> 4 / 2 ^ 53"
    using double_gini_term_err [OF p] by (simp_all add: T_def double_gini_term_def p_def)
  have tb: "0 \<le> p * (1 - p)" using gini_term_bounds [OF p] by simp
  have restnn: "0 \<le> (\<Sum>kv\<leftarrow>d. gini_term n (snd kv))"
    using rest by (rule gini_term_sum_nonneg)
  have total: "a + p * (1 - p) + (\<Sum>kv\<leftarrow>d. gini_term n (snd kv)) \<le> 1"
    using Cons.prems(5) by (simp add: kv t add.assoc)
  have len: "E + 1 / 2 ^ 50 + of_nat (length d) / 2 ^ 50 \<le> 1 / 2"
    using Cons.prems(6) by (simp add: add_divide_distrib algebra_simps)
  have lennn: "(0 :: rat) \<le> of_nat (length d) / 2 ^ 50" by simp
  have Ehalf: "E \<le> 1 / 2" using len lennn by simp
  define x where "x = ah + T"
  have x0: "0 \<le> x" using Cons.prems(3) T(1) by (simp add: x_def)
  have xe: "\<bar>x - (a + p * (1 - p))\<bar> \<le> E + 4 / 2 ^ 53"
    unfolding x_def using Cons.prems(4) T(3) by linarith
  have "x \<le> a + p * (1 - p) + E + 4 / 2 ^ 53" using xe by linarith
  also have "\<dots> \<le> 1 + 1 / 2 + 4 / 2 ^ 53" using total restnn Ehalf by linarith
  also have "\<dots> < 2" by simp
  finally have x2: "x < 2" .
  define ah' where "ah' = float_add ah T"
  have ah': "ah' = round_double x" by (simp add: ah'_def float_add_def x_def)
  have ah'0: "0 \<le> ah'" unfolding ah' using x0 x2 by (rule round_double_nonneg_small)
  have "\<bar>ah' - x\<bar> \<le> 1 / 2 ^ 53" unfolding ah' using x0 x2 by (intro round_double_err) simp
  with xe have "\<bar>ah' - (a + p * (1 - p))\<bar> \<le> E + 5 / 2 ^ 53" by linarith
  also have "\<dots> \<le> E + 1 / 2 ^ 50" by simp
  finally have ah'e: "\<bar>ah' - (a + p * (1 - p))\<bar> \<le> E + 1 / 2 ^ 50" .
  have step: "gini_loop (kv # d) n ah = gini_loop d n ah'"
    using Cons.prems(1)
    by (simp add: kv int_truediv_def ah'_def T_def double_gini_term_def)
  from Cons.IH [OF Cons.prems(1) rest ah'0 ah'e total len]
  obtain r where r: "gini_loop d n ah' = Inr r" "0 \<le> r"
    "\<bar>r - (a + p * (1 - p) + (\<Sum>kv\<leftarrow>d. gini_term n (snd kv)))\<bar>
       \<le> E + 1 / 2 ^ 50 + of_nat (length d) / 2 ^ 50"
    by blast
  have "\<bar>r - (a + (\<Sum>kv\<leftarrow>kv # d. gini_term n (snd kv)))\<bar>
       \<le> E + of_nat (length (kv # d)) / 2 ^ 50"
    using r(3) by (simp add: kv t add.assoc add_divide_distrib algebra_simps)
  with r(1,2) step show ?case by simp
qed

lemma sum_list_divide:
  "(\<Sum>kv\<leftarrow>d. of_int (snd kv) / of_int n) = (of_int (\<Sum>kv\<leftarrow>d. snd kv) / of_int n :: rat)"
  by (induction d) (simp_all add: add_divide_distrib)

lemma member_le_sum:
  "counts_nonneg d \<Longrightarrow> kv \<in> set d \<Longrightarrow> snd kv \<le> (\<Sum>kv\<leftarrow>d. snd kv)"
proof (induction d)
  case Nil
  then show ?case by simp
next
  case (Cons a d)
  then have a: "0 \<le> snd a" and d: "counts_nonneg d" by (simp_all add: counts_nonneg_def)
  have s: "0 \<le> (\<Sum>kv\<leftarrow>d. snd kv)" using sum_sq_le [OF d] by simp
  show ?case
  proof (cases "kv = a")
    case True
    with s show ?thesis by simp
  next
    case False
    with Cons.prems(2) have "kv \<in> set d" by simp
    with Cons.IH [OF d] a show ?thesis by simp
  qed
qed

lemma counts_unit_fractions:
  assumes "counts_nonneg d" "(\<Sum>kv\<leftarrow>d. snd kv) = n" "n \<noteq> 0"
  shows "unit_fractions d n"
proof -
  have "0 \<le> n" using sum_sq_le [OF assms(1)] assms(2) by simp
  with assms(3) have n: "0 < n" by simp
  show ?thesis
    unfolding unit_fractions_def
  proof
    fix kv assume kv: "kv \<in> set d"
    have "0 \<le> snd kv" using assms(1) kv by (simp add: counts_nonneg_def)
    moreover have "snd kv \<le> n" using member_le_sum [OF assms(1) kv] assms(2) by simp
    ultimately show "(0 :: rat) \<le> of_int (snd kv) / of_int n
                     \<and> of_int (snd kv) / of_int n \<le> (1 :: rat)"
      using n by simp
  qed
qed

lemma gini_impurity_bound:
  assumes "sample_size self \<noteq> 0" "unit_fractions (priv_categories self) (sample_size self)"
    and "(\<Sum>kv\<leftarrow>priv_categories self. snd kv) = sample_size self"
    and "length (priv_categories self) \<le> 2 ^ 49"
  shows "\<exists>g. gini_impurity self = Inr (Some g)
           \<and> \<bar>g - (\<Sum>kv\<leftarrow>priv_categories self. gini_term (sample_size self) (snd kv))\<bar>
               \<le> of_nat (length (priv_categories self)) / 2 ^ 50"
proof -
  let ?d = "priv_categories self" and ?n = "sample_size self"
  have "(\<Sum>kv\<leftarrow>?d. gini_term ?n (snd kv)) \<le> (\<Sum>kv\<leftarrow>?d. of_int (snd kv) / of_int ?n)"
    using assms(2) by (rule gini_term_sum_le)
  also have "\<dots> = 1" using assms(1,3) by (simp add: sum_list_divide)
  finally have tot: "0 + (\<Sum>kv\<leftarrow>?d. gini_term ?n (snd kv)) \<le> 1" by simp
  have "(of_nat (length ?d) :: rat) \<le> of_nat (2 ^ 49)"
    using assms(4) by (simp only: of_nat_le_iff)
  then have len: "0 + (of_nat (length ?d) :: rat) / 2 ^ 50 \<le> 1 / 2" by simp
  have "\<exists>r. gini_loop ?d ?n 0 = Inr r \<and> 0 \<le> r
            \<and> \<bar>r - (0 + (\<Sum>kv\<leftarrow>?d. gini_term ?n (snd kv)))\<bar>
                \<le> 0 + of_nat (length ?d) / 2 ^ 50"
    using assms(1,2) _ _ tot len by (rule gini_loop_err) simp_all
  then show ?thesis using assms(1) by (auto simp: gini_impurity_def)
qed

lemma sum_list_const_int:
  "(\<forall>x \<in> set xs. f x = (c::int)) \<Longrightarrow> (\<Sum>x\<leftarrow>xs. f x) = int (length xs) * c"
  by (induction xs) (simp_all add: algebra_simps)

text \<open>
  C5, as amended. \<open>gini_impurity\<close> is null when \<open>sample_size = 0\<close>; otherwise it is
  the sum over the categories, in dict order, of \<open>p (1 - p)\<close> with
  \<open>p = count / sample_size\<close>, every division, subtraction, product and addition
  rounded to the nearest double. When the counts are not negative and add up to
  \<open>sample_size\<close>, and there are at most \<^verbatim>\<open>2**49\<close> categories, the result is
  within \<^verbatim>\<open>k / 2**50\<close> of the exact sum. A single category gives exactly 0, and
  \<open>k\<close> categories with the same count give a value within \<^verbatim>\<open>k / 2**50\<close> of
  \<open>(k - 1) / k\<close>.
\<close>

theorem gini_impurity_double:
  "(sample_size self = 0 \<longrightarrow> gini_impurity self = Inr None)
   \<and> (sample_size self \<noteq> 0 \<longrightarrow>
        gini_impurity self =
          Inr (Some (foldl (\<lambda>s kv. float_add s (double_gini_term (sample_size self) (snd kv)))
                       0 (priv_categories self))))
   \<and> (counts_nonneg (priv_categories self)
        \<and> (\<Sum>kv\<leftarrow>priv_categories self. snd kv) = sample_size self
        \<and> sample_size self \<noteq> 0
        \<and> length (priv_categories self) \<le> 2 ^ 49 \<longrightarrow>
        (\<exists>g. gini_impurity self = Inr (Some g)
             \<and> \<bar>g - (\<Sum>kv\<leftarrow>priv_categories self.
                        (of_int (snd kv) / of_int (sample_size self))
                        * (1 - of_int (snd kv) / of_int (sample_size self)))\<bar>
                 \<le> of_nat (length (priv_categories self)) / 2 ^ 50))
   \<and> (priv_categories self = [(x, sample_size self)] \<and> sample_size self \<noteq> 0 \<longrightarrow>
        gini_impurity self = Inr (Some 0))
   \<and> ((\<forall>kv \<in> set (priv_categories self). snd kv = m)
        \<and> sample_size self = int (length (priv_categories self)) * m
        \<and> sample_size self \<noteq> 0
        \<and> length (priv_categories self) \<le> 2 ^ 49 \<longrightarrow>
        (\<exists>g. gini_impurity self = Inr (Some g)
             \<and> \<bar>g - (of_nat (length (priv_categories self)) - 1)
                       / of_nat (length (priv_categories self))\<bar>
                 \<le> of_nat (length (priv_categories self)) / 2 ^ 50))"
proof -
  let ?n = "sample_size self" and ?d = "priv_categories self"
  let ?k = "of_nat (length ?d) :: rat"
  have folded: "gini_impurity self =
      Inr (Some (foldl (\<lambda>s kv. float_add s (double_gini_term ?n (snd kv))) 0 ?d))"
    if "?n \<noteq> 0"
    using that by (simp add: gini_impurity_def gini_loop_foldl)
  have bound: "\<exists>g. gini_impurity self = Inr (Some g)
      \<and> \<bar>g - (\<Sum>kv\<leftarrow>?d. (of_int (snd kv) / of_int ?n) * (1 - of_int (snd kv) / of_int ?n))\<bar>
          \<le> ?k / 2 ^ 50"
    if "counts_nonneg ?d" "(\<Sum>kv\<leftarrow>?d. snd kv) = ?n" "?n \<noteq> 0" "length ?d \<le> 2 ^ 49"
    using gini_impurity_bound [OF that(3) counts_unit_fractions [OF that(1,2,3)] that(2,4)]
    by (simp add: gini_term_def)
  have single: "gini_impurity self = Inr (Some 0)"
    if "?d = [(x, ?n)]" "?n \<noteq> 0"
    using that
    by (simp add: gini_impurity_def int_truediv_def float_add_def float_sub_def float_mul_def
          round_double_one round_double_zero)
  have uniform: "\<exists>g. gini_impurity self = Inr (Some g) \<and> \<bar>g - (?k - 1) / ?k\<bar> \<le> ?k / 2 ^ 50"
    if u: "\<forall>kv \<in> set ?d. snd kv = m" and n: "?n = int (length ?d) * m" and nz: "?n \<noteq> 0"
      and len: "length ?d \<le> 2 ^ 49"
  proof -
    have k: "?k \<noteq> 0" and m: "of_int m \<noteq> (0::rat)" using n nz by auto
    then have k1: "1 \<le> ?k" by (cases "length ?d") simp_all
    have frac: "(of_int m / of_int ?n :: rat) = 1 / ?k" using k m by (simp add: n)
    have kpos: "0 < ?k" using k1 by linarith
    have inv: "0 \<le> 1 / ?k" "1 / ?k \<le> 1"
      using kpos k1 by (simp_all only: zero_le_divide_1_iff divide_le_eq_1_pos less_imp_le)
    have unit: "unit_fractions ?d ?n"
      unfolding unit_fractions_def
    proof
      fix kv assume "kv \<in> set ?d"
      with u have "snd kv = m" by simp
      then show "(0 :: rat) \<le> of_int (snd kv) / of_int ?n
                 \<and> of_int (snd kv) / of_int ?n \<le> (1 :: rat)"
        using inv by (simp only: frac)
    qed
    have total: "(\<Sum>kv\<leftarrow>?d. snd kv) = ?n"
      using sum_list_const_int [of ?d snd m] u by (simp only: n)
    have t: "gini_term ?n m = (1 / ?k) * (1 - 1 / ?k)"
      by (simp only: gini_term_def frac)
    have "\<forall>kv \<in> set ?d. gini_term ?n (snd kv) = (1 / ?k) * (1 - 1 / ?k)"
      using u t by simp
    then have "(\<Sum>kv\<leftarrow>?d. gini_term ?n (snd kv)) = ?k * ((1 / ?k) * (1 - 1 / ?k))"
      by (rule sum_list_const)
    also have "\<dots> = (?k - 1) / ?k" using k by (simp add: field_simps)
    finally have exact: "(\<Sum>kv\<leftarrow>?d. gini_term ?n (snd kv)) = (?k - 1) / ?k" .
    show ?thesis using gini_impurity_bound [OF nz unit total len] unfolding exact .
  qed
  show ?thesis
    using folded bound single uniform
    by (auto simp: gini_impurity_def)
qed

theorem gini_impurity_double_witness:
  "gini_impurity \<lparr>priv_categories = [(''a'', 4)], sample_size = 0,
      top_k_categories = None\<rparr> = Inr None
   \<and> gini_impurity \<lparr>priv_categories = [(''a'', 5)], sample_size = 5,
      top_k_categories = None\<rparr> = Inr (Some 0)
   \<and> (\<exists>g. gini_impurity \<lparr>priv_categories = [(''a'', 3), (''b'', 1)], sample_size = 4,
      top_k_categories = None\<rparr> = Inr (Some g) \<and> \<bar>g - 3 / 8\<bar> \<le> 2 / 2 ^ 50)
   \<and> (\<exists>g. gini_impurity \<lparr>priv_categories = [(''a'', 3), (''b'', 3), (''c'', 3)],
      sample_size = 9, top_k_categories = None\<rparr> = Inr (Some g)
         \<and> \<bar>g - (3 - 1) / 3\<bar> \<le> 3 / 2 ^ 50)"
proof -
  note zero = gini_impurity_double
      [where self = "\<lparr>priv_categories = [(''a'', 4)], sample_size = 0,
         top_k_categories = None\<rparr>"]
  note one = gini_impurity_double
      [where self = "\<lparr>priv_categories = [(''a'', 5)], sample_size = 5,
         top_k_categories = None\<rparr>" and x = "''a''"]
  note two = gini_impurity_double
      [where self = "\<lparr>priv_categories = [(''a'', 3), (''b'', 1)], sample_size = 4,
         top_k_categories = None\<rparr>"]
  note three = gini_impurity_double
      [where self = "\<lparr>priv_categories = [(''a'', 3), (''b'', 3), (''c'', 3)], sample_size = 9,
         top_k_categories = None\<rparr>" and m = 3]
  have a: "gini_impurity \<lparr>priv_categories = [(''a'', 4)], sample_size = 0,
      top_k_categories = None\<rparr> = Inr None"
    using zero [THEN conjunct1] by simp
  have b: "gini_impurity \<lparr>priv_categories = [(''a'', 5)], sample_size = 5,
      top_k_categories = None\<rparr> = Inr (Some 0)"
    using one [THEN conjunct2, THEN conjunct2, THEN conjunct2, THEN conjunct1] by simp
  have c: "\<exists>g. gini_impurity \<lparr>priv_categories = [(''a'', 3), (''b'', 1)], sample_size = 4,
      top_k_categories = None\<rparr> = Inr (Some g) \<and> \<bar>g - 3 / 8\<bar> \<le> 2 / 2 ^ 50"
    using two [THEN conjunct2, THEN conjunct2, THEN conjunct1]
    by (simp add: counts_nonneg_def)
  have d: "\<exists>g. gini_impurity \<lparr>priv_categories = [(''a'', 3), (''b'', 3), (''c'', 3)],
      sample_size = 9, top_k_categories = None\<rparr> = Inr (Some g)
         \<and> \<bar>g - (3 - 1) / 3\<bar> \<le> 3 / 2 ^ 50"
    using three [THEN conjunct2, THEN conjunct2, THEN conjunct2, THEN conjunct2]
    by simp
  from a b c d show ?thesis by (intro conjI)
qed

text \<open>
  The claim as it was stated fails: for three categories with count 3 each and
  \<open>sample_size = 9\<close> the code returns \<^verbatim>\<open>0.6666666666666667\<close>, the double above the
  one that \<^verbatim>\<open>(3 - 1) / 3\<close> evaluates to, and not the rational \<open>2/3\<close> either.
\<close>

theorem gini_impurity_uniform_counterexample:
  "gini_impurity \<lparr>priv_categories = [(''a'', 3), (''b'', 3), (''c'', 3)], sample_size = 9,
      top_k_categories = None\<rparr> = Inr (Some (6004799503160662 / 2 ^ 53))
   \<and> gini_impurity \<lparr>priv_categories = [(''a'', 3), (''b'', 3), (''c'', 3)], sample_size = 9,
      top_k_categories = None\<rparr> \<noteq> Inr (Some ((3 - 1) / 3))
   \<and> int_truediv (3 - 1) 3 = Inr (6004799503160661 / 2 ^ 53)"
proof -
  have l: "gini_loop [(''a'', 3), (''b'', 3), (''c'', 3)] 9 0 = Inr (6004799503160662 / 2 ^ 53)"
    by code_simp
  have d: "int_truediv (3 - 1) 3 = Inr (6004799503160661 / 2 ^ 53)"
    by code_simp
  have g: "gini_impurity \<lparr>priv_categories = [(''a'', 3), (''b'', 3), (''c'', 3)],
      sample_size = 9, top_k_categories = None\<rparr> = Inr (Some (6004799503160662 / 2 ^ 53))"
    by (simp add: gini_impurity_def l del: gini_loop.simps)
  show ?thesis unfolding g using d by simp
qed



subsection \<open>The chi-squared test\<close>

lemma contains_map_of: "contains d k \<longleftrightarrow> map_of d k \<noteq> None"
  by (simp add: contains_def keys_def map_of_eq_None_iff)

lemma guarded_getitem:
  "(if contains (s r) cat then getitem s r cat else (0, s)) = (get_or_zero (s r) cat, s)"
  by (auto simp: contains_map_of getitem_def get_or_zero_def)

lemma cat_counts_eq: "cat_counts s r cats = (map (get_or_zero (s r)) cats, s)"
  by (induction cats) (simp_all add: guarded_getitem)

lemma col_sums_eq:
  "map (\<lambda>i. map f cats ! i + map g cats ! i) [0 ..< length cats] = map (\<lambda>c. f c + g c) cats"
  (is "?l = ?r")
proof (rule nth_equalityI)
  show "length ?l = length ?r" by simp
  show "?l ! i = ?r ! i" if "i < length ?l" for i using that by simp
qed

lemma fill_row_upt:
  "a \<le> length row \<Longrightarrow> t \<noteq> 0 \<Longrightarrow>
   fill_row row R cs t [a ..< length row] =
     Inr (take a row @ map (\<lambda>j. Some (of_int (R * cs ! j) / of_int t)) [a ..< length row])"
proof (induction "length row - a" arbitrary: a row)
  case 0
  then show ?case by simp
next
  case (Suc n)
  then have lt: "a < length row" by simp
  have ih: "fill_row (row[a := x]) R cs t [Suc a ..< length row] =
     Inr (take (Suc a) (row[a := x])
          @ map (\<lambda>j. Some (of_int (R * cs ! j) / of_int t)) [Suc a ..< length row])" for x
    using Suc.hyps(1) [of "row[a := x]" "Suc a"] Suc.hyps(2) Suc.prems lt by simp
  show ?case
    using lt Suc.prems(2)
    by (simp add: upt_conv_Cons truediv_def ih take_Suc_conv_app_nth)
qed

lemma fill_row_all:
  "t \<noteq> 0 \<Longrightarrow>
   fill_row (replicate k None) R cs t [0 ..< k] =
     Inr (map (\<lambda>j. Some (of_int (R * cs ! j) / of_int t)) [0 ..< k])"
  using fill_row_upt [of 0 "replicate k None" t R cs] by simp

lemma upt_two: "[0 ..< Suc (Suc 0)] = [0, Suc 0]"
  by (simp add: upt_rec)

lemma fill_expected_two:
  "t \<noteq> 0 \<Longrightarrow> length cs = k \<Longrightarrow>
   fill_expected [replicate k None, replicate k None] [R1, R2] cs t [0 ..< length [R1, R2]] =
     Inr [map (\<lambda>j. Some (of_int (R1 * cs ! j) / of_int t)) [0 ..< k],
          map (\<lambda>j. Some (of_int (R2 * cs ! j) / of_int t)) [0 ..< k], [], []]"
  by (simp add: upt_two fill_row_all)

lemma statistic_row_upt:
  "a \<le> length es \<Longrightarrow> \<forall>e \<in> set es. e \<noteq> 0 \<Longrightarrow>
   statistic_row os (map Some es) acc [a ..< length es] =
     Inr (acc + (\<Sum>j\<leftarrow>[a ..< length es]. (of_int (os ! j) - es ! j)\<^sup>2 / (es ! j)))"
proof (induction "length es - a" arbitrary: a acc)
  case 0
  then show ?case by simp
next
  case (Suc n)
  then have lt: "a < length es" by simp
  then have nz: "es ! a \<noteq> 0" using Suc.prems(2) by simp
  have ih: "statistic_row os (map Some es) acc' [Suc a ..< length es] =
     Inr (acc' + (\<Sum>j\<leftarrow>[Suc a ..< length es]. (of_int (os ! j) - es ! j)\<^sup>2 / (es ! j)))" for acc'
    using Suc.hyps(1) [of "Suc a" acc'] Suc.hyps(2) Suc.prems lt by simp
  show ?case
    using lt nz by (simp add: upt_conv_Cons truediv_def ih)
qed

lemma map_nth_fun2:
  "map (\<lambda>j. F (map f cats ! j) (map g cats ! j)) [0 ..< length cats]
     = map (\<lambda>c. F (f c) (g c)) cats"
  (is "?l = ?r")
proof (rule nth_equalityI)
  show "length ?l = length ?r" by simp
  show "?l ! i = ?r ! i" if "i < length ?l" for i using that by simp
qed

lemma expected_row_eq:
  "map (\<lambda>j. Some (of_int (R * map c cats ! j) / of_int t)) [0 ..< length cats]
     = map Some (map (\<lambda>cat. of_int (R * c cat) / of_int t) cats)"
  (is "?l = ?r")
proof (rule nth_equalityI)
  show "length ?l = length ?r" by simp
  show "?l ! i = ?r ! i" if "i < length ?l" for i using that by simp
qed

lemma statistic_row_all:
  assumes "\<forall>cat \<in> set cats. e cat \<noteq> 0"
  shows "statistic_row (map f cats) (map Some (map e cats)) acc [0 ..< length cats] =
           Inr (acc + (\<Sum>cat\<leftarrow>cats. (of_int (f cat) - e cat)\<^sup>2 / e cat))"
proof -
  have nz: "\<forall>x \<in> set (map e cats). x \<noteq> 0" using assms by simp
  have "statistic_row (map f cats) (map Some (map e cats)) acc [0 ..< length (map e cats)] =
          Inr (acc + (\<Sum>j\<leftarrow>[0 ..< length (map e cats)].
                  (of_int (map f cats ! j) - map e cats ! j)\<^sup>2 / (map e cats ! j)))"
    by (rule statistic_row_upt [OF _ nz]) simp
  moreover have "map (\<lambda>j. (of_int (map f cats ! j) - map e cats ! j)\<^sup>2 / (map e cats ! j))
                   [0 ..< length cats]
                 = map (\<lambda>cat. (of_int (f cat) - e cat)\<^sup>2 / e cat) cats"
    by (rule map_nth_fun2 [where F = "\<lambda>x y. (of_int x - y)\<^sup>2 / y"])
  ultimately show ?thesis by simp
qed

lemma chi2_regular:
  assumes ne: "cats \<noteq> []"
    and r1: "row_sum cats (s a) \<noteq> 0" and r2: "row_sum cats (s b) \<noteq> 0"
    and t: "row_sum cats (s a) + row_sum cats (s b) \<noteq> 0"
    and cols: "\<forall>cat \<in> set cats. col_sum (s a) (s b) cat \<noteq> 0"
  shows "perform_chi_squared_test scipy cats s a b =
           (fst (test_outcome scipy (length cats) (homogeneity_statistic cats (s a) (s b))),
            snd (test_outcome scipy (length cats) (homogeneity_statistic cats (s a) (s b))),
            s)"
proof -
  let ?k = "length cats"
  let ?R1 = "row_sum cats (s a)" and ?R2 = "row_sum cats (s b)"
  let ?c = "col_sum (s a) (s b)"
  let ?cc1 = "map (get_or_zero (s a)) cats" and ?cc2 = "map (get_or_zero (s b)) cats"
  let ?cs = "map ?c cats"
  let ?t = "?R1 + ?R2"
  let ?e1 = "\<lambda>cat. expected_count cats (s a) (s b) (s a) cat"
  let ?e2 = "\<lambda>cat. expected_count cats (s a) (s b) (s b) cat"
  have k: "\<not> ?k < 1" using ne by (cases cats) simp_all
  have sums: "sum_list ?cc1 = ?R1" "sum_list ?cc2 = ?R2" by (simp_all add: row_sum_def)
  have cs: "map (\<lambda>i. ?cc1 ! i + ?cc2 ! i) [0 ..< ?k] = ?cs"
    unfolding col_sum_def by (rule col_sums_eq)
  have nodeg: "\<not> (0 \<in> set [?R1, ?R2] \<or> 0 \<in> set ?cs)"
    using r1 r2 cols by auto
  have e1nz: "\<forall>cat \<in> set cats. ?e1 cat \<noteq> 0" and e2nz: "\<forall>cat \<in> set cats. ?e2 cat \<noteq> 0"
    using r1 r2 t cols by (simp_all add: expected_count_def)
  have expected: "fill_expected [replicate ?k None, replicate ?k None] [?R1, ?R2] ?cs ?t
                    [0 ..< length [?R1, ?R2]]
                  = Inr [map Some (map ?e1 cats), map Some (map ?e2 cats), [], []]"
    using fill_expected_two [OF t, of ?cs ?k ?R1 ?R2]
    by (simp only: length_map expected_row_eq expected_count_def)
  have stat: "statistic_rows [?cc1, ?cc2]
                [map Some (map ?e1 cats), map Some (map ?e2 cats), [], []] 0
                [0 ..< length [?cc1, ?cc2]]
              = Inr (homogeneity_statistic cats (s a) (s b))"
    using statistic_row_all [OF e1nz, of "get_or_zero (s a)"]
      statistic_row_all [OF e2nz, of "get_or_zero (s b)"]
    by (simp add: upt_two homogeneity_statistic_def chi2_cell_def)
  show ?thesis
    unfolding perform_chi_squared_test_def Let_def cat_counts_eq
    using k nodeg
    by (simp only: if_False prod.case sums cs expected stat sum.case fst_conv snd_conv
          test_outcome_def list.simps sum_list.Cons sum_list.Nil add_0_right
          chi2_results.simps option.case split: option.split) simp
qed

lemma chi2_degenerate:
  assumes ne: "cats \<noteq> []"
    and deg: "row_sum cats (s a) = 0 \<or> row_sum cats (s b) = 0
              \<or> (\<exists>cat \<in> set cats. col_sum (s a) (s b) cat = 0)"
  shows "perform_chi_squared_test scipy cats s a b =
           (Inr \<lparr>res_statistic = Some Infinity, res_df = Some (int (length cats) - 1),
                 res_p_value = Some (Finite 0)\<rparr>, [], s)"
proof -
  let ?k = "length cats"
  let ?R1 = "row_sum cats (s a)" and ?R2 = "row_sum cats (s b)"
  let ?cc1 = "map (get_or_zero (s a)) cats" and ?cc2 = "map (get_or_zero (s b)) cats"
  let ?cs = "map (col_sum (s a) (s b)) cats"
  have k: "\<not> ?k < 1" using ne by (cases cats) simp_all
  have sums: "sum_list ?cc1 = ?R1" "sum_list ?cc2 = ?R2" by (simp_all add: row_sum_def)
  have cs: "map (\<lambda>i. ?cc1 ! i + ?cc2 ! i) [0 ..< ?k] = ?cs"
    unfolding col_sum_def by (rule col_sums_eq)
  have isdeg: "0 \<in> set [?R1, ?R2] \<or> 0 \<in> set ?cs"
    using deg by force
  show ?thesis
    unfolding perform_chi_squared_test_def Let_def cat_counts_eq
    using k isdeg
    by (simp only: if_False if_True prod.case sums cs) simp
qed

lemma chi2_empty:
  "perform_chi_squared_test scipy [] s a b =
     (Inr \<lparr>res_statistic = None, res_df = None, res_p_value = None\<rparr>,
      [RuntimeWarning
         ''Insufficient number of categories. Chi-squared test cannot be performed.''], s)"
  by (simp add: perform_chi_squared_test_def)

lemma combined_cats_card:
  "is_combined_cats cats d1 d2 \<Longrightarrow> length cats = card (set (keys d1) \<union> set (keys d2))"
  by (metis is_combined_cats_def distinct_card)

lemma get_or_zero_nonneg: "counts_nonneg d \<Longrightarrow> 0 \<le> get_or_zero d k"
proof (cases "map_of d k")
  case None
  then show ?thesis by (simp add: get_or_zero_def)
next
  case (Some v)
  assume nn: "counts_nonneg d"
  from Some have "(k, v) \<in> set d" by (rule map_of_SomeD)
  with nn have "0 \<le> v" unfolding counts_nonneg_def by fastforce
  with Some show ?thesis by (simp add: get_or_zero_def)
qed

lemma row_sum_nonneg: "counts_nonneg d \<Longrightarrow> 0 \<le> row_sum cats d"
  unfolding row_sum_def by (induction cats) (simp_all add: get_or_zero_nonneg)







text \<open>
  C4. When the combined key set is not empty and a row sum or a column sum is zero,
  the test returns the statistic \<open>+\<infinity>\<close>, the p-value 0 and \<open>df = k - 1\<close>, and
  raises nothing. When the combined key set is empty it returns the three fields null
  and emits one warning.
\<close>

theorem chi_squared_degenerate:
  assumes "is_combined_cats cats (s a) (s b)"
  shows "(set (keys (s a)) \<union> set (keys (s b)) \<noteq> {}
          \<and> (row_sum cats (s a) = 0 \<or> row_sum cats (s b) = 0
              \<or> (\<exists>cat \<in> set cats. col_sum (s a) (s b) cat = 0))
          \<longrightarrow> perform_chi_squared_test scipy cats s a b =
                (Inr \<lparr>res_statistic = Some Infinity,
                      res_df = Some (int (length cats) - 1),
                      res_p_value = Some (Finite 0)\<rparr>, [], s))
       \<and> (set (keys (s a)) \<union> set (keys (s b)) = {}
          \<longrightarrow> perform_chi_squared_test scipy cats s a b =
                (Inr \<lparr>res_statistic = None, res_df = None, res_p_value = None\<rparr>,
                 [RuntimeWarning
                    ''Insufficient number of categories. Chi-squared test cannot be performed.''],
                 s))
       \<and> length cats = card (set (keys (s a)) \<union> set (keys (s b)))"
proof -
  have len: "length cats = card (set (keys (s a)) \<union> set (keys (s b)))"
    using assms by (rule combined_cats_card)
  have cats: "set cats = set (keys (s a)) \<union> set (keys (s b))"
    using assms by (simp add: is_combined_cats_def)
  show ?thesis
  proof (intro conjI impI)
    assume h: "set (keys (s a)) \<union> set (keys (s b)) \<noteq> {}
          \<and> (row_sum cats (s a) = 0 \<or> row_sum cats (s b) = 0
              \<or> (\<exists>cat \<in> set cats. col_sum (s a) (s b) cat = 0))"
    then have ne: "cats \<noteq> []" using cats by auto
    show "perform_chi_squared_test scipy cats s a b =
                (Inr \<lparr>res_statistic = Some Infinity,
                      res_df = Some (int (length cats) - 1),
                      res_p_value = Some (Finite 0)\<rparr>, [], s)"
      using chi2_degenerate [OF ne, of s a b scipy] h by simp
  next
    assume "set (keys (s a)) \<union> set (keys (s b)) = {}"
    then have "cats = []" using cats by simp
    then show "perform_chi_squared_test scipy cats s a b =
                (Inr \<lparr>res_statistic = None, res_df = None, res_p_value = None\<rparr>,
                 [RuntimeWarning
                    ''Insufficient number of categories. Chi-squared test cannot be performed.''],
                 s)"
      by (simp add: chi2_empty)
  next
    show "length cats = card (set (keys (s a)) \<union> set (keys (s b)))" by (rule len)
  qed
qed


theorem chi_squared_degenerate_witness:
  "perform_chi_squared_test None [''x'']
       (\<lambda>r :: nat. if r = 0 then [(''x'', 5)] else [(''x'', 0)]) 0 1
     = (Inr \<lparr>res_statistic = Some Infinity, res_df = Some 0, res_p_value = Some (Finite 0)\<rparr>,
        [], (\<lambda>r :: nat. if r = 0 then [(''x'', 5)] else [(''x'', 0)]))
   \<and> perform_chi_squared_test None ([] :: string list) (\<lambda>r :: nat. []) 0 1
     = (Inr \<lparr>res_statistic = None, res_df = None, res_p_value = None\<rparr>,
        [RuntimeWarning
           ''Insufficient number of categories. Chi-squared test cannot be performed.''],
        (\<lambda>r :: nat. []))"
  using chi_squared_degenerate
      [where scipy = None and cats = "[''x'']" and a = 0 and b = 1
         and s = "\<lambda>r :: nat. if r = 0 then [(''x'', 5)] else [(''x'', 0)]"]
    chi_squared_degenerate
      [where scipy = None and cats = "[] :: string list" and a = 0 and b = 1
         and s = "\<lambda>r :: nat. []"]
  by (simp add: is_combined_cats_def keys_def row_sum_def get_or_zero_def)

subsection \<open>Merging counters and profiles\<close>

lemma map_of_merge:
  "map_of (add_nested_dictionaries a b) k =
     (if k \<in> set (keys a) \<union> set (keys b) then Some (get_or_zero a k + get_or_zero b k)
      else None)"
  by (simp add: add_nested_dictionaries_def map_of_map_restrict restrict_map_def)

lemma keys_merge:
  "set (keys (add_nested_dictionaries a b)) = set (keys a) \<union> set (keys b)"
  by (simp add: add_nested_dictionaries_def keys_def comp_def)

lemma get_or_zero_absent: "k \<notin> set (keys d) \<Longrightarrow> get_or_zero d k = 0"
  by (simp add: get_or_zero_def keys_def map_of_eq_None_iff [THEN iffD2])

lemma get_or_zero_merge:
  "get_or_zero (add_nested_dictionaries a b) k = get_or_zero a k + get_or_zero b k"
proof (cases "k \<in> set (keys a) \<union> set (keys b)")
  case True
  then show ?thesis by (simp add: get_or_zero_def [of "add_nested_dictionaries a b"] map_of_merge)
next
  case False
  then have "get_or_zero a k = 0" "get_or_zero b k = 0" by (simp_all add: get_or_zero_absent)
  with False show ?thesis
    by (simp add: get_or_zero_def [of "add_nested_dictionaries a b"] map_of_merge)
qed

text \<open>
  C2. The merge of two counters has as keys the union of their keys, each key once; the
  count of every key is its count in \<open>a\<close> plus its count in \<open>b\<close>, an absent key
  counting 0; and the merge is commutative and associative, two dicts being equal when
  they map the same keys to the same counts.
\<close>

theorem counter_merge:
  "set (keys (add_nested_dictionaries a b)) = set (keys a) \<union> set (keys b)
   \<and> is_dict (add_nested_dictionaries a b)
   \<and> get_or_zero (add_nested_dictionaries a b) k = get_or_zero a k + get_or_zero b k
   \<and> map_of (add_nested_dictionaries a b) = map_of (add_nested_dictionaries b a)
   \<and> map_of (add_nested_dictionaries (add_nested_dictionaries a b) c)
       = map_of (add_nested_dictionaries a (add_nested_dictionaries b c))"
proof (intro conjI)
  show "set (keys (add_nested_dictionaries a b)) = set (keys a) \<union> set (keys b)"
    by (rule keys_merge)
  show "is_dict (add_nested_dictionaries a b)"
    by (simp add: is_dict_def add_nested_dictionaries_def comp_def)
  show "get_or_zero (add_nested_dictionaries a b) k = get_or_zero a k + get_or_zero b k"
    by (rule get_or_zero_merge)
  show "map_of (add_nested_dictionaries a b) = map_of (add_nested_dictionaries b a)"
    by (rule ext) (simp add: map_of_merge Un_commute add.commute)
  show "map_of (add_nested_dictionaries (add_nested_dictionaries a b) c)
       = map_of (add_nested_dictionaries a (add_nested_dictionaries b c))"
    by (rule ext) (simp add: map_of_merge keys_merge get_or_zero_merge Un_assoc add.assoc)
qed

theorem counter_merge_witness:
  "map_of (add_nested_dictionaries [(''x'', 1), (''y'', 2)] [(''y'', 3), (''z'', 4)])
     = map_of (add_nested_dictionaries [(''y'', 3), (''z'', 4)] [(''x'', 1), (''y'', 2)])
   \<and> get_or_zero (add_nested_dictionaries [(''x'', 1), (''y'', 2)] [(''y'', 3), (''z'', 4)]) ''y''
     = 5"
  using counter_merge [of "[(''x'', 1), (''y'', 2)]" "[(''y'', 3), (''z'', 4)]" "''y''" "[]"]
  by (simp add: get_or_zero_def [of "[(''x'', 1), (''y'', 2)]"]
        get_or_zero_def [of "[(''y'', 3), (''z'', 4)]"])

text \<open>
  C9. Adding an object that is not a \<^verbatim>\<open>CategoricalColumn\<close> to a profile fails with a
  \<^verbatim>\<open>TypeError\<close>, and the heap is what it was: the profile is unchanged and no
  merged profile has been created.
\<close>

theorem add_type_error:
  "self < length h \<Longrightarrow> other < length h \<Longrightarrow> h ! self = Profile A \<Longrightarrow> h ! other = Instance cls \<Longrightarrow>
   add h self other = (Inl (TypeError (unsupported_operand cls)), h)"
  by (simp add: add_def)

theorem add_type_error_witness:
  "add example_heap 0 3 = (Inl (TypeError (unsupported_operand ''IntColumn'')), example_heap)"
  using add_type_error [of 0 example_heap 3 example_A "''IntColumn''"]
  by (simp add: example_heap_def)

lemma store_categories_same: "store_categories h (categories_of h) = h"
proof (rule nth_equalityI)
  show "length (store_categories h (categories_of h)) = length h"
    by (simp add: store_categories_def)
  show "store_categories h (categories_of h) ! i = h ! i"
    if "i < length (store_categories h (categories_of h))" for i
  proof -
    from that have i: "i < length h" by (simp add: store_categories_def)
    then show ?thesis
      by (cases "h ! i") (simp_all add: store_categories_def nth_enumerate_eq categories_of_def)
  qed
qed

lemma chi2_store:
  "snd (snd (perform_chi_squared_test scipy cats s a b)) = s"
  unfolding perform_chi_squared_test_def Let_def cat_counts_eq
  by (simp split: sum.split option.split)

lemma add_profiles:
  assumes "self < length h" "other < length h"
    and "h ! self = Profile A" "h ! other = Profile B"
  shows "add h self other =
           (Inr (length h),
            h @ [Profile \<lparr>priv_categories =
                             add_nested_dictionaries (priv_categories A) (priv_categories B),
                           sample_size = sample_size A + sample_size B,
                           top_k_categories = None\<rparr>])"
  using assms by (simp add: add_def Let_def init_None_def add_helper_def)

lemma diff_heap: "snd (snd (diff utils scipy cats h self other)) = h"
proof -
  obtain res ws where run:
    "perform_chi_squared_test scipy cats (categories_of h) self other
       = (res, ws, categories_of h)"
    using chi2_store [of scipy cats "categories_of h" self other]
    by (metis prod.collapse)
  show ?thesis
    by (simp add: diff_def run Let_def store_categories_same split: pyobj.split sum.split)
qed

text \<open>
  C8. \<open>add\<close> returns a reference that was not allocated before, to a new profile, and
  every object that was on the heap, the two operands among them, is unchanged; \<open>diff\<close>
  returns the heap it was given, whatever its outcome; and the chi-squared test returns
  the store of dicts it was given, also when both arguments are the same dict.
\<close>

theorem merge_and_diff_frame:
  assumes "self < length h" "other < length h"
    and "h ! self = Profile A" "h ! other = Profile B"
  shows "(\<exists>h'. add h self other = (Inr (length h), h')
            \<and> length h' = Suc (length h)
            \<and> take (length h) h' = h
            \<and> h' ! self = Profile A \<and> h' ! other = Profile B
            \<and> h' ! length h =
                Profile \<lparr>priv_categories =
                           add_nested_dictionaries (priv_categories A) (priv_categories B),
                         sample_size = sample_size A + sample_size B,
                         top_k_categories = None\<rparr>)
       \<and> snd (snd (diff utils scipy cats h self other)) = h
       \<and> snd (snd (perform_chi_squared_test scipy cats (categories_of h) self other))
           = categories_of h"
proof (intro conjI)
  show "\<exists>h'. add h self other = (Inr (length h), h')
            \<and> length h' = Suc (length h)
            \<and> take (length h) h' = h
            \<and> h' ! self = Profile A \<and> h' ! other = Profile B
            \<and> h' ! length h =
                Profile \<lparr>priv_categories =
                           add_nested_dictionaries (priv_categories A) (priv_categories B),
                         sample_size = sample_size A + sample_size B,
                         top_k_categories = None\<rparr>"
    using assms by (simp add: add_profiles [OF assms] nth_append)
  show "snd (snd (diff utils scipy cats h self other)) = h"
    by (rule diff_heap)
  show "snd (snd (perform_chi_squared_test scipy cats (categories_of h) self other))
           = categories_of h"
    by (rule chi2_store)
qed

theorem merge_and_diff_frame_witness:
  "(\<exists>h'. add example_heap 0 1 = (Inr 4, h') \<and> take 4 h' = example_heap
         \<and> h' ! 4 = Profile \<lparr>priv_categories = [(2, 10), (4, 5), (3, 40)], sample_size = 55,
                               top_k_categories = None\<rparr>)
   \<and> snd (snd (diff example_utils None [2, 3, 4] example_heap 0 1)) = example_heap"
proof -
  have len: "length example_heap = 4" by (simp add: example_heap_def)
  have m: "add_nested_dictionaries (priv_categories example_A) (priv_categories example_B)
             = [(2, 10), (4, 5), (3, 40)]"
    by (simp add: add_nested_dictionaries_def keys_def get_or_zero_def example_A_def
          example_B_def)
  have n: "sample_size example_A + sample_size example_B = 55"
    by (simp add: example_A_def example_B_def)
  have pre: "0 < length example_heap" "1 < length example_heap"
    "example_heap ! 0 = Profile example_A" "example_heap ! 1 = Profile example_B"
    by (simp_all add: example_heap_def)
  note frame = merge_and_diff_frame
    [where utils = example_utils and scipy = None and cats = "[2, 3, 4]", OF pre]
  show ?thesis using frame unfolding len m n by auto
qed

subsection \<open>The diff report\<close>

lemma is_match_value:
  "is_match p =
     Inr (length (priv_categories p) \<le> 10
          \<or> (sample_size p \<noteq> 0
              \<and> of_nat (length (priv_categories p)) / of_int (sample_size p) \<le> (1 / 5 :: rat)))"
  by (auto simp: is_match_def unique_ratio_value Let_def
        MAXIMUM_UNIQUE_VALUES_TO_CLASSIFY_AS_CATEGORICAL_def
        CATEGORICAL_THRESHOLD_DEFAULT_def)

lemma gini_impurity_total: "\<exists>g. gini_impurity p = Inr g"
  by (simp add: gini_impurity_def gini_loop_foldl)

lemma unalikeability_total: "\<exists>u. unalikeability p = Inr u"
proof -
  have "(sample_size p)\<^sup>2 - sample_size p \<noteq> 0"
    if "sample_size p \<noteq> 0" "sample_size p \<noteq> 1"
    using that by (simp add: power2_eq_square algebra_simps)
  then show ?thesis
    by (simp add: unalikeability_def truediv_def del: of_int_diff of_int_power)
qed

lemma chi2_total:
  assumes "counts_nonneg (s a)" "counts_nonneg (s b)"
  shows "\<exists>res ws. perform_chi_squared_test scipy cats s a b = (Inr res, ws, s)"
proof (cases "cats = []")
  case True
  then show ?thesis by (simp add: chi2_empty)
next
  case ne: False
  show ?thesis
  proof (cases "row_sum cats (s a) = 0 \<or> row_sum cats (s b) = 0
              \<or> (\<exists>cat \<in> set cats. col_sum (s a) (s b) cat = 0)")
    case True
    then show ?thesis using chi2_degenerate [OF ne, of s a b scipy] by simp
  next
    case False
    then have r: "row_sum cats (s a) \<noteq> 0" "row_sum cats (s b) \<noteq> 0"
      and c: "\<forall>cat \<in> set cats. col_sum (s a) (s b) cat \<noteq> 0" by simp_all
    have "0 \<le> row_sum cats (s a)" "0 \<le> row_sum cats (s b)"
      using assms by (simp_all add: row_sum_nonneg)
    with r have t: "row_sum cats (s a) + row_sum cats (s b) \<noteq> 0" by linarith
    show ?thesis
      unfolding chi2_regular [where s = s and a = a and b = b, OF ne r t c]
      by (cases scipy) (simp_all add: test_outcome_def)
  qed
qed

lemma diff_common_shape:
  "\<exists>c u r. diff_common utils A B =
     Inr [(''categorical'', Diff c),
          (''statistics'', Statistics [(''unique_count'', u), (''unique_ratio'', r)])]"
  by (simp add: diff_common_def is_match_value unique_ratio_value base_diff_def Let_def)

lemma is_match_total: "\<exists>m. is_match p = Inr m"
  by (simp add: is_match_value)

lemma both_match_value:
  "both_match A B = Inr (is_match A = Inr True \<and> is_match B = Inr True)"
proof -
  obtain mA mB where "is_match A = Inr mA" "is_match B = Inr mB"
    using is_match_total [of A] is_match_total [of B] by auto
  then show ?thesis by (cases mA; cases mB; simp add: both_match_def)
qed

lemma set_statistic_shape:
  "set_statistic k v [(''categorical'', c), (''statistics'', Statistics st), (''chi2-test'', x)]
     = Inr [(''categorical'', c), (''statistics'', Statistics (AList.update k v st)),
            (''chi2-test'', x)]"
  by (simp add: set_statistic_def)

lemma diff_categorical_shape:
  "\<exists>v1 v2 v3 v4.
     diff_categorical utils A B
       [(''categorical'', c),
        (''statistics'', Statistics [(''unique_count'', u), (''unique_ratio'', r)]),
        (''chi2-test'', x)]
     = Inr [(''categorical'', c),
            (''statistics'',
             Statistics [(''unique_count'', u), (''unique_ratio'', r), (''categories'', v1),
                         (''gini_impurity'', v2), (''unalikeability'', v3),
                         (''categorical_count'', v4)]),
            (''chi2-test'', x)]"
proof -
  obtain g1 g2 where g: "gini_impurity A = Inr g1" "gini_impurity B = Inr g2"
    using gini_impurity_total [of A] gini_impurity_total [of B] by auto
  obtain u1 u2 where u: "unalikeability A = Inr u1" "unalikeability B = Inr u2"
    using unalikeability_total [of A] unalikeability_total [of B] by auto
  show ?thesis
    by (simp add: diff_categorical_def set_statistic_shape g u Let_def)
qed

text \<open>
  C7. For two profiles with non-negative counts, \<open>diff\<close> returns a report, and the
  keys \<^verbatim>\<open>chi2-test\<close>, \<^verbatim>\<open>statistics.categories\<close>, \<^verbatim>\<open>statistics.gini_impurity\<close>,
  \<^verbatim>\<open>statistics.unalikeability\<close> and \<^verbatim>\<open>statistics.categorical_count\<close> are in it
  exactly when both profiles are categorical; the chi-squared test is called exactly
  then, on the dicts of the two profiles, and its result is the value of
  \<^verbatim>\<open>chi2-test\<close>.
\<close>

theorem diff_categorical_fields:
  assumes "self < length h" "other < length h"
    and "h ! self = Profile A" "h ! other = Profile B"
    and "counts_nonneg (priv_categories A)" "counts_nonneg (priv_categories B)"
  shows "\<exists>report events.
           diff utils scipy cats h self other = (Inr report, events, h)
           \<and> (''chi2-test'' \<in> fst ` set report
                \<longleftrightarrow> is_match A = Inr True \<and> is_match B = Inr True)
           \<and> (''categories'' \<in> statistics_keys report
                \<longleftrightarrow> is_match A = Inr True \<and> is_match B = Inr True)
           \<and> (''gini_impurity'' \<in> statistics_keys report
                \<longleftrightarrow> is_match A = Inr True \<and> is_match B = Inr True)
           \<and> (''unalikeability'' \<in> statistics_keys report
                \<longleftrightarrow> is_match A = Inr True \<and> is_match B = Inr True)
           \<and> (''categorical_count'' \<in> statistics_keys report
                \<longleftrightarrow> is_match A = Inr True \<and> is_match B = Inr True)
           \<and> (Invoked_perform_chi_squared_test \<in> set events
                \<longleftrightarrow> is_match A = Inr True \<and> is_match B = Inr True)
           \<and> (is_match A = Inr True \<and> is_match B = Inr True \<longrightarrow>
                (\<exists>res. fst (perform_chi_squared_test scipy cats (categories_of h) self other)
                         = Inr res
                       \<and> map_of report ''chi2-test'' = Some (Chi2_test res)))"
proof -
  let ?both = "is_match A = Inr True \<and> is_match B = Inr True"
  obtain c u r where common: "diff_common utils A B =
     Inr [(''categorical'', Diff c),
          (''statistics'', Statistics [(''unique_count'', u), (''unique_ratio'', r)])]"
    using diff_common_shape [of utils A B] by auto
  show ?thesis
  proof (cases ?both)
    case False
    then have "diff utils scipy cats h self other =
        (Inr [(''categorical'', Diff c),
              (''statistics'', Statistics [(''unique_count'', u), (''unique_ratio'', r)])],
         [], h)"
      using assms(3,4) by (simp add: diff_def common both_match_value)
    with False show ?thesis by (simp add: statistics_keys_def)
  next
    case True
    have nn: "counts_nonneg (categories_of h self)" "counts_nonneg (categories_of h other)"
      using assms(3-6) by (simp_all add: categories_of_def)
    obtain res ws where run:
      "perform_chi_squared_test scipy cats (categories_of h) self other
         = (Inr res, ws, categories_of h)"
      using chi2_total [where s = "categories_of h" and a = self and b = other
          and scipy = scipy and cats = cats, OF nn]
      by auto
    obtain v1 v2 v3 v4 where cat:
      "diff_categorical utils A B
         [(''categorical'', Diff c),
          (''statistics'', Statistics [(''unique_count'', u), (''unique_ratio'', r)]),
          (''chi2-test'', Chi2_test res)]
       = Inr [(''categorical'', Diff c),
              (''statistics'',
               Statistics [(''unique_count'', u), (''unique_ratio'', r), (''categories'', v1),
                           (''gini_impurity'', v2), (''unalikeability'', v3),
                           (''categorical_count'', v4)]),
              (''chi2-test'', Chi2_test res)]"
      using diff_categorical_shape [of utils A B "Diff c" u r "Chi2_test res"] by auto
    have "diff utils scipy cats h self other =
        (Inr [(''categorical'', Diff c),
              (''statistics'',
               Statistics [(''unique_count'', u), (''unique_ratio'', r), (''categories'', v1),
                           (''gini_impurity'', v2), (''unalikeability'', v3),
                           (''categorical_count'', v4)]),
              (''chi2-test'', Chi2_test res)],
         Invoked_perform_chi_squared_test # map Warned ws, h)"
      using assms(3,4) True
      by (simp add: diff_def common both_match_value run store_categories_same cat)
    with True run show ?thesis by (simp add: statistics_keys_def)
  qed
qed

theorem diff_categorical_fields_witness:
  "(\<exists>report events.
      diff example_utils None [2, 3, 4] example_heap 0 1 = (Inr report, events, example_heap)
      \<and> ''chi2-test'' \<in> fst ` set report
      \<and> ''categories'' \<in> statistics_keys report
      \<and> ''gini_impurity'' \<in> statistics_keys report
      \<and> ''unalikeability'' \<in> statistics_keys report
      \<and> ''categorical_count'' \<in> statistics_keys report
      \<and> Invoked_perform_chi_squared_test \<in> set events)
   \<and> (\<exists>report events.
      diff example_utils None [0 ..< 11] example_heap 0 2 = (Inr report, events, example_heap)
      \<and> ''chi2-test'' \<notin> fst ` set report
      \<and> ''categories'' \<notin> statistics_keys report
      \<and> ''gini_impurity'' \<notin> statistics_keys report
      \<and> ''unalikeability'' \<notin> statistics_keys report
      \<and> ''categorical_count'' \<notin> statistics_keys report
      \<and> Invoked_perform_chi_squared_test \<notin> set events)"
proof -
  have mA: "is_match example_A = Inr True" and mB: "is_match example_B = Inr True"
    and mC: "is_match example_C = Inr False"
    by (simp_all add: is_match_value example_A_def example_B_def example_C_def)
  have nn: "counts_nonneg (priv_categories example_A)"
    "counts_nonneg (priv_categories example_B)"
    "counts_nonneg (priv_categories example_C)"
    by (auto simp: counts_nonneg_def example_A_def example_B_def example_C_def)
  have len: "0 < length example_heap" "1 < length example_heap" "2 < length example_heap"
    by (simp_all add: example_heap_def)
  have at: "example_heap ! 0 = Profile example_A" "example_heap ! 1 = Profile example_B"
    "example_heap ! 2 = Profile example_C"
    by (simp_all add: example_heap_def)
  note yes = diff_categorical_fields
    [where utils = example_utils and scipy = None and cats = "[2, 3, 4]",
      OF len(1) len(2) at(1) at(2) nn(1) nn(2)]
  note no = diff_categorical_fields
    [where utils = example_utils and scipy = None and cats = "[0 ..< 11]",
      OF len(1) len(3) at(1) at(3) nn(1) nn(3)]
  have "\<exists>report events.
      diff example_utils None [2, 3, 4] example_heap 0 1 = (Inr report, events, example_heap)
      \<and> ''chi2-test'' \<in> fst ` set report
      \<and> ''categories'' \<in> statistics_keys report
      \<and> ''gini_impurity'' \<in> statistics_keys report
      \<and> ''unalikeability'' \<in> statistics_keys report
      \<and> ''categorical_count'' \<in> statistics_keys report
      \<and> Invoked_perform_chi_squared_test \<in> set events"
    using yes unfolding mA mB by blast
  moreover have "\<exists>report events.
      diff example_utils None [0 ..< 11] example_heap 0 2 = (Inr report, events, example_heap)
      \<and> ''chi2-test'' \<notin> fst ` set report
      \<and> ''categories'' \<notin> statistics_keys report
      \<and> ''gini_impurity'' \<notin> statistics_keys report
      \<and> ''unalikeability'' \<notin> statistics_keys report
      \<and> ''categorical_count'' \<notin> statistics_keys report
      \<and> Invoked_perform_chi_squared_test \<notin> set events"
    using no unfolding mA mC by blast
  ultimately show ?thesis by (rule conjI)
qed

end
